theory Spec2Isabelle
  imports Main "HOL-Library.Sublist"
begin

section \<open>Severity levels\<close>

text \<open>
  Modelled from the spec: the enumeration \<open>bxilog_level_e\<close> is declared in
  \<open>bxi/base/log.h\<close>, which is not among the sources. The spec lists twelve levels,
  ordered from the most to the least severe, and says that a record is emitted only if its
  level is numerically at most the logger's level. The source agrees: its tables
  \<open>_LOG_LEVEL_NAMES\<close> and \<open>LOG_LEVEL_STR\<close> are indexed by the level and list
  the twelve names in this order. The source writes \<open>BXILOG_CRIT\<close>, \<open>BXILOG_ERR\<close>,
  \<open>BXILOG_WARN\<close> for \<open>BXILOG_CRITICAL\<close>, \<open>BXILOG_ERROR\<close>, \<open>BXILOG_WARNING\<close>.
\<close>

datatype bxilog_level_e =
    BXILOG_PANIC | BXILOG_ALERT | BXILOG_CRITICAL | BXILOG_ERROR
  | BXILOG_WARNING | BXILOG_NOTICE | BXILOG_OUTPUT | BXILOG_INFO
  | BXILOG_DEBUG | BXILOG_FINE | BXILOG_TRACE | BXILOG_LOWEST

fun level_num :: "bxilog_level_e \<Rightarrow> nat" where
  "level_num BXILOG_PANIC = 0"
| "level_num BXILOG_ALERT = 1"
| "level_num BXILOG_CRITICAL = 2"
| "level_num BXILOG_ERROR = 3"
| "level_num BXILOG_WARNING = 4"
| "level_num BXILOG_NOTICE = 5"
| "level_num BXILOG_OUTPUT = 6"
| "level_num BXILOG_INFO = 7"
| "level_num BXILOG_DEBUG = 8"
| "level_num BXILOG_FINE = 9"
| "level_num BXILOG_TRACE = 10"
| "level_num BXILOG_LOWEST = 11"

definition LOG_LEVEL_NAMES :: "string list" where
  "LOG_LEVEL_NAMES = [''panic'', ''alert'', ''critical'', ''error'', ''warning'', ''notice'',
     ''output'', ''info'', ''debug'', ''fine'', ''trace'', ''lowest'']"

definition LOG_LEVEL_STR :: "char list" where
  "LOG_LEVEL_STR = ''PACEWNOIDFTL''"

section \<open>Errors\<close>

text \<open>
  Modelled from the spec: \<open>bxierr_p\<close>, \<open>BXIERR_OK\<close> and \<open>BXIERR_CHAIN\<close> come from
  \<open>bxi/base/err.h\<close>, which is not among the sources. The spec says that errors are values
  that form a chain (a new error may carry a cause). An error is the list of the codes of
  its chain, the newest first; \<open>BXIERR_OK\<close> is the empty chain.
\<close>

datatype bxierr_code =
    BXILOG_ILLEGAL_STATE_ERR
  | BXILOG_CONFIG_ERR
  | BXILOG_IHT2BC_PROTO_ERR
  | BXIZMQ_RETRIES_MAX_ERR nat
  | IHT_EXIT_ERR
  | BXIERR_GEN string

type_synonym bxierr_p = "bxierr_code list"

definition BXIERR_OK :: bxierr_p where
  "BXIERR_OK = []"

definition bxierr_isko :: "bxierr_p \<Rightarrow> bool" where
  "bxierr_isko err = (err \<noteq> BXIERR_OK)"

definition BXIERR_CHAIN :: "bxierr_p \<Rightarrow> bxierr_p \<Rightarrow> bxierr_p" where
  "BXIERR_CHAIN err err2 = (if bxierr_isko err2 then err2 @ err else err)"

definition bxierr_get_depth :: "bxierr_p \<Rightarrow> nat" where
  "bxierr_get_depth err = length err"

text \<open>
  What C leaves to the process: a failed \<open>assert\<close> (or \<open>error(EX_SOFTWARE, ...)\<close>)
  ends it, and a read through \<open>NULL\<close>, through a pointer to no object, of an
  uninitialised slot or outside an array is undefined. Each is a value of the model.
\<close>

datatype fault = AssertFailed | NullDeref | BadPointer | UninitRead | OutOfBounds

section \<open>Loggers and the registry\<close>

record bxilog_s =
  name :: string
  name_length :: nat
  level :: bxilog_level_e

text \<open>A \<open>bxilog_p\<close> is the address of a logger, or \<open>NULL\<close> (\<open>None\<close>).\<close>

type_synonym bxilog_p = "nat option"

text \<open>
  A slot of the array \<open>REGISTERED_LOGGERS\<close>: \<open>calloc\<close> gives \<open>NULL\<close> slots,
  \<open>realloc\<close> gives slots that hold nothing yet.
\<close>

datatype slot = NULL_slot | Ptr nat | Uninit

datatype mutex_call = MUTEX_LOCK | MUTEX_UNLOCK

datatype stderr_msg = Reallocation_msg nat nat | Cant_find_msg string

text \<open>
  The global state of the registry, with the logger objects it points to. \<open>register_lock\<close>
  is the sequence of the calls made on the mutex of that name, the oldest first. The mutex is
  a default one (\<open>PTHREAD_MUTEX_INITIALIZER\<close>), which checks nothing: each call returns 0
  and the \<open>assert(0 == rc)\<close> after it holds.
\<close>

record registry =
  loggers :: "nat \<rightharpoonup> bxilog_s"
  REGISTERED_LOGGERS_ARRAY_SIZE :: nat
  REGISTERED_LOGGERS :: "slot list option"
  REGISTERED_LOGGERS_NB :: nat
  register_lock :: "mutex_call list"
  registry_stderr :: "stderr_msg list"

definition REGISTERED_LOGGERS_DEFAULT_ARRAY_SIZE :: nat where
  "REGISTERED_LOGGERS_DEFAULT_ARRAY_SIZE = 64"

definition initial_registry :: "(nat \<rightharpoonup> bxilog_s) \<Rightarrow> registry" where
  "initial_registry h =
     \<lparr> loggers = h,
       REGISTERED_LOGGERS_ARRAY_SIZE = REGISTERED_LOGGERS_DEFAULT_ARRAY_SIZE,
       REGISTERED_LOGGERS = None,
       REGISTERED_LOGGERS_NB = 0,
       register_lock = [],
       registry_stderr = [] \<rparr>"

definition pthread_mutex_lock :: "registry \<Rightarrow> registry" where
  "pthread_mutex_lock s = s\<lparr>register_lock := register_lock s @ [MUTEX_LOCK]\<rparr>"

definition pthread_mutex_unlock :: "registry \<Rightarrow> registry" where
  "pthread_mutex_unlock s = s\<lparr>register_lock := register_lock s @ [MUTEX_UNLOCK]\<rparr>"

definition bximem_calloc :: "nat \<Rightarrow> slot list" where
  "bximem_calloc n = replicate n NULL_slot"

definition bximem_realloc :: "slot list \<Rightarrow> nat \<Rightarrow> slot list" where
  "bximem_realloc arr n = take n arr @ replicate (n - length arr) Uninit"

text \<open>
  \<open>bxilog_register\<close>: allocate the array on first use, grow it by 10 slots when it is
  full, store the logger at index \<open>REGISTERED_LOGGERS_NB\<close> and count it.
\<close>

definition register_grow :: "registry \<Rightarrow> registry" where
  "register_grow s =
     (case REGISTERED_LOGGERS s of
        None \<Rightarrow> s\<lparr>REGISTERED_LOGGERS := Some (bximem_calloc (REGISTERED_LOGGERS_ARRAY_SIZE s))\<rparr>
      | Some arr \<Rightarrow>
          if REGISTERED_LOGGERS_NB s \<ge> REGISTERED_LOGGERS_ARRAY_SIZE s
          then s\<lparr>REGISTERED_LOGGERS_ARRAY_SIZE := REGISTERED_LOGGERS_ARRAY_SIZE s + 10,
                 REGISTERED_LOGGERS :=
                   Some (bximem_realloc arr (REGISTERED_LOGGERS_ARRAY_SIZE s + 10)),
                 registry_stderr := registry_stderr s @
                   [Reallocation_msg (REGISTERED_LOGGERS_ARRAY_SIZE s + 10)
                      (REGISTERED_LOGGERS_NB s)]\<rparr>
          else s)"

definition bxilog_register :: "bxilog_p \<Rightarrow> registry \<Rightarrow> fault + registry" where
  "bxilog_register logger s =
     (case logger of
        None \<Rightarrow> Inl AssertFailed
      | Some p \<Rightarrow>
          let s1 = register_grow (pthread_mutex_lock s) in
          (case REGISTERED_LOGGERS s1 of
             None \<Rightarrow> Inl NullDeref
           | Some arr \<Rightarrow>
               if REGISTERED_LOGGERS_NB s1 < length arr
               then Inr (pthread_mutex_unlock
                      (s1\<lparr>REGISTERED_LOGGERS := Some (arr[REGISTERED_LOGGERS_NB s1 := Ptr p]),
                          REGISTERED_LOGGERS_NB := REGISTERED_LOGGERS_NB s1 + 1\<rparr>))
               else Inl OutOfBounds))"

text \<open>
  \<open>bxilog_unregister\<close>: the loop over the first \<open>REGISTERED_LOGGERS_NB\<close> slots sets
  every slot that holds the logger to \<open>NULL\<close>; the result is the array and \<open>found\<close>.
\<close>

fun unregister_loop :: "nat \<Rightarrow> nat list \<Rightarrow> slot list option \<Rightarrow> bool
    \<Rightarrow> fault + (slot list option \<times> bool)" where
  "unregister_loop p [] arr found = Inr (arr, found)"
| "unregister_loop p (i # is) arr found =
     (case arr of
        None \<Rightarrow> Inl NullDeref
      | Some a \<Rightarrow>
          if i \<ge> length a then Inl OutOfBounds
          else (case a ! i of
                  Uninit \<Rightarrow> Inl UninitRead
                | NULL_slot \<Rightarrow> unregister_loop p is arr found
                | Ptr q \<Rightarrow>
                    if q = p then unregister_loop p is (Some (a[i := NULL_slot])) True
                    else unregister_loop p is arr found))"

definition bxilog_unregister :: "bxilog_p \<Rightarrow> registry \<Rightarrow> fault + registry" where
  "bxilog_unregister logger s =
     (case logger of
        None \<Rightarrow> Inl AssertFailed
      | Some p \<Rightarrow>
          let s1 = pthread_mutex_lock s in
          (case unregister_loop p [0 ..< REGISTERED_LOGGERS_NB s1] (REGISTERED_LOGGERS s1) False of
             Inl f \<Rightarrow> Inl f
           | Inr (arr, found) \<Rightarrow>
               (case (if found then Inr (s1\<lparr>REGISTERED_LOGGERS := arr,
                                            REGISTERED_LOGGERS_NB := REGISTERED_LOGGERS_NB s1 - 1\<rparr>)
                      else (case loggers s1 p of
                              None \<Rightarrow> Inl BadPointer
                            | Some lg \<Rightarrow>
                                Inr (s1\<lparr>REGISTERED_LOGGERS := arr,
                                        registry_stderr := registry_stderr s1 @
                                          [Cant_find_msg (name lg)]\<rparr>))) of
                  Inl f \<Rightarrow> Inl f
                | Inr s2 \<Rightarrow>
                    Inr (pthread_mutex_unlock
                      (if REGISTERED_LOGGERS_NB s2 = 0 then s2\<lparr>REGISTERED_LOGGERS := None\<rparr>
                       else s2)))))"

definition bxilog_get_registered :: "registry \<Rightarrow> slot list option \<times> nat" where
  "bxilog_get_registered s = (REGISTERED_LOGGERS s, REGISTERED_LOGGERS_NB s)"

definition NUL :: char where
  "NUL = CHR 0x00"

definition NL :: char where
  "NL = CHR 0x0A"

text \<open>
  A C string is the list of its characters; the end of the list stands for the
  terminating \<open>NUL\<close>. \<open>strncmp\<close> compares unsigned characters, at most \<open>n\<close> of them,
  and stops after a \<open>NUL\<close>.
\<close>

definition strlen :: "string \<Rightarrow> nat" where
  "strlen s = length (takeWhile (\<lambda>c. c \<noteq> NUL) s)"

fun strncmp :: "string \<Rightarrow> string \<Rightarrow> nat \<Rightarrow> int" where
  "strncmp s1 s2 0 = 0"
| "strncmp [] [] (Suc n) = 0"
| "strncmp [] (c2 # s2) (Suc n) = - int (of_char c2)"
| "strncmp (c1 # s1) [] (Suc n) = int (of_char c1)"
| "strncmp (c1 # s1) (c2 # s2) (Suc n) =
     (if c1 \<noteq> c2 then int (of_char c1) - int (of_char c2)
      else if c1 = NUL then 0
      else strncmp s1 s2 n)"

record bxilog_cfg_item_s =
  logger_name_prefix :: "string option"
  cfg_level :: bxilog_level_e

text \<open>
  \<open>bxilog_cfg_registered\<close>: its first call on the mutex is \<open>pthread_mutex_unlock\<close>,
  as is its last. The inner loop runs over the first \<open>REGISTERED_LOGGERS_NB\<close> slots and
  reads the name of the logger each of them points to.
\<close>

fun cfg_loggers_loop :: "string \<Rightarrow> nat \<Rightarrow> bxilog_level_e \<Rightarrow> nat list \<Rightarrow> registry
    \<Rightarrow> fault + registry" where
  "cfg_loggers_loop pfx len lvl [] s = Inr s"
| "cfg_loggers_loop pfx len lvl (l # ls) s =
     (case REGISTERED_LOGGERS s of
        None \<Rightarrow> Inl NullDeref
      | Some arr \<Rightarrow>
          if l \<ge> length arr then Inl OutOfBounds
          else (case arr ! l of
                  NULL_slot \<Rightarrow> Inl NullDeref
                | Uninit \<Rightarrow> Inl UninitRead
                | Ptr p \<Rightarrow>
                    (case loggers s p of
                       None \<Rightarrow> Inl BadPointer
                     | Some logger \<Rightarrow>
                         cfg_loggers_loop pfx len lvl ls
                           (if strncmp pfx (name logger) len = 0
                            then s\<lparr>loggers := (loggers s)(p \<mapsto> logger\<lparr>level := lvl\<rparr>)\<rparr>
                            else s))))"

fun cfg_items_loop :: "bxilog_cfg_item_s list \<Rightarrow> registry \<Rightarrow> fault + registry" where
  "cfg_items_loop [] s = Inr s"
| "cfg_items_loop (c # cfg) s =
     (case logger_name_prefix c of
        None \<Rightarrow> Inl AssertFailed
      | Some pfx \<Rightarrow>
          (case cfg_loggers_loop pfx (strlen pfx) (cfg_level c)
                  [0 ..< REGISTERED_LOGGERS_NB s] s of
             Inl f \<Rightarrow> Inl f
           | Inr s' \<Rightarrow> cfg_items_loop cfg s'))"

definition bxilog_cfg_registered :: "bxilog_cfg_item_s list \<Rightarrow> registry
    \<Rightarrow> fault + (bxierr_p \<times> registry)" where
  "bxilog_cfg_registered cfg s =
     (case cfg_items_loop cfg (pthread_mutex_unlock s) of
        Inl f \<Rightarrow> Inl f
      | Inr s' \<Rightarrow> Inr (BXIERR_OK, pthread_mutex_unlock s'))"

definition bxilog_get_level :: "bxilog_p \<Rightarrow> registry \<Rightarrow> fault + bxilog_level_e" where
  "bxilog_get_level logger s =
     (case logger of
        None \<Rightarrow> Inl AssertFailed
      | Some p \<Rightarrow> (case loggers s p of None \<Rightarrow> Inl BadPointer | Some lg \<Rightarrow> Inr (level lg)))"

text \<open>\<open>bxilog_set_level\<close> starts with \<open>assert(NULL != logger && BXILOG_CRITICAL >= level)\<close>.\<close>

definition bxilog_set_level :: "bxilog_p \<Rightarrow> bxilog_level_e \<Rightarrow> registry \<Rightarrow> fault + registry" where
  "bxilog_set_level logger lvl s =
     (case logger of
        None \<Rightarrow> Inl AssertFailed
      | Some p \<Rightarrow>
          if \<not> (level_num BXILOG_CRITICAL \<ge> level_num lvl) then Inl AssertFailed
          else (case loggers s p of
                  None \<Rightarrow> Inl BadPointer
                | Some lg \<Rightarrow> Inr (s\<lparr>loggers := (loggers s)(p \<mapsto> lg\<lparr>level := lvl\<rparr>)\<rparr>)))"

text \<open>
  Modelled from the spec: \<open>bxilog_is_enabled_for\<close> is defined inline in \<open>bxilog.h\<close>,
  which is not among the sources (the source only declares it \<open>extern\<close>). The spec:
  it returns \<open>level \<le> logger.level\<close>.
\<close>

definition bxilog_is_enabled_for :: "bxilog_s \<Rightarrow> bxilog_level_e \<Rightarrow> bool" where
  "bxilog_is_enabled_for logger lvl = (level_num lvl \<le> level_num (level logger))"

text \<open>
  The spec's words for \<open>configure\<close>: the last rule, in list order, whose prefix is a prefix
  of the logger's name gives the level.
\<close>

definition rule_matches :: "string \<Rightarrow> bxilog_cfg_item_s \<Rightarrow> bool" where
  "rule_matches nm c = (case logger_name_prefix c of None \<Rightarrow> False | Some pfx \<Rightarrow> prefix pfx nm)"

definition spec_last_matching_level :: "bxilog_cfg_item_s list \<Rightarrow> string
    \<Rightarrow> bxilog_level_e option" where
  "spec_last_matching_level cfg nm =
     (case filter (rule_matches nm) cfg of
        [] \<Rightarrow> None
      | m # ms \<Rightarrow> Some (cfg_level (last (m # ms))))"

text \<open>The rule list of the example program \<open>bxilog_cfg.c\<close> and of the spec.\<close>

definition example_cfg :: "bxilog_cfg_item_s list" where
  "example_cfg =
     [\<lparr>logger_name_prefix = Some [], cfg_level = BXILOG_LOWEST\<rparr>,
      \<lparr>logger_name_prefix = Some ''a'', cfg_level = BXILOG_OUTPUT\<rparr>,
      \<lparr>logger_name_prefix = Some ''a.b'', cfg_level = BXILOG_WARNING\<rparr>]"

text \<open>
  The invariant the readers of the registry rely on: the array has room for
  \<open>REGISTERED_LOGGERS_NB\<close> slots and the first \<open>REGISTERED_LOGGERS_NB\<close> of them are
  pointers, not \<open>NULL\<close>.
\<close>

fun is_Ptr :: "slot \<Rightarrow> bool" where
  "is_Ptr (Ptr p) = True"
| "is_Ptr NULL_slot = False"
| "is_Ptr Uninit = False"

definition first_nb_non_null :: "registry \<Rightarrow> bool" where
  "first_nb_non_null s =
     (case REGISTERED_LOGGERS s of
        None \<Rightarrow> REGISTERED_LOGGERS_NB s = 0
      | Some arr \<Rightarrow> REGISTERED_LOGGERS_NB s \<le> length arr
                    \<and> list_all is_Ptr (take (REGISTERED_LOGGERS_NB s) arr))"

text \<open>The loggers the registry holds: the pointers in its first \<open>REGISTERED_LOGGERS_NB\<close> slots.\<close>

fun slot_ptrs :: "slot list \<Rightarrow> nat list" where
  "slot_ptrs [] = []"
| "slot_ptrs (Ptr p # sl) = p # slot_ptrs sl"
| "slot_ptrs (NULL_slot # sl) = slot_ptrs sl"
| "slot_ptrs (Uninit # sl) = slot_ptrs sl"

definition registered :: "registry \<Rightarrow> nat list" where
  "registered s =
     (case REGISTERED_LOGGERS s of
        None \<Rightarrow> []
      | Some arr \<Rightarrow> slot_ptrs (take (REGISTERED_LOGGERS_NB s) arr))"

text \<open>Every registered pointer points to a logger object.\<close>

definition registered_live :: "registry \<Rightarrow> bool" where
  "registered_live s = list_all (\<lambda>p. loggers s p \<noteq> None) (registered s)"

text \<open>
  The array and its recorded size agree: \<open>REGISTERED_LOGGERS_ARRAY_SIZE\<close> is the number
  of slots of the array, and is positive while the array is not yet allocated.
\<close>

definition array_sized :: "registry \<Rightarrow> bool" where
  "array_sized s =
     (case REGISTERED_LOGGERS s of
        None \<Rightarrow> 0 < REGISTERED_LOGGERS_ARRAY_SIZE s
      | Some arr \<Rightarrow> length arr = REGISTERED_LOGGERS_ARRAY_SIZE s)"

text \<open>Registering a list of loggers, one call each, and the loggers of the examples.\<close>

fun register_all :: "nat list \<Rightarrow> registry \<Rightarrow> fault + registry" where
  "register_all [] s = Inr s"
| "register_all (p # ps) s =
     (case bxilog_register (Some p) s of Inl f \<Rightarrow> Inl f | Inr s' \<Rightarrow> register_all ps s')"

definition demo_loggers :: "nat \<rightharpoonup> bxilog_s" where
  "demo_loggers =
     [0 \<mapsto> \<lparr>name = ''a.b.x'', name_length = 6, level = BXILOG_TRACE\<rparr>,
      1 \<mapsto> \<lparr>name = ''a.c'', name_length = 4, level = BXILOG_TRACE\<rparr>,
      2 \<mapsto> \<lparr>name = ''a.b'', name_length = 4, level = BXILOG_TRACE\<rparr>,
      3 \<mapsto> \<lparr>name = ''z'', name_length = 2, level = BXILOG_TRACE\<rparr>]"

text \<open>
  Two loggers are registered, then the first of them is unregistered.
\<close>

definition unregister_scenario :: "fault + registry" where
  "unregister_scenario =
     (case register_all [0, 1] (initial_registry demo_loggers) of
        Inl f \<Rightarrow> Inl f
      | Inr s \<Rightarrow> bxilog_unregister (Some 0) s)"

text \<open>
  The four loggers of the example are registered, then the second of them, "a.c", is
  unregistered.
\<close>

definition unregister_second_scenario :: "fault + registry" where
  "unregister_second_scenario =
     (case register_all [0, 1, 2, 3] (initial_registry demo_loggers) of
        Inl f \<Rightarrow> Inl f
      | Inr s \<Rightarrow> bxilog_unregister (Some 1) s)"

section \<open>The lifecycle and the producer side\<close>

text \<open>
  Isabelle names do not start with an underscore: the static function \<open>_f\<close> of the
  source is \<open>f\<close> here, and \<open>_init\<close> and \<open>_finalize\<close> are \<open>static_init\<close> and
  \<open>static_finalize\<close>. The \<open>__linux__\<close> configuration is the one modelled.
\<close>

datatype bxilog_state_e =
  UNSET | INITIALIZING | INITIALIZED | FINALIZING | FINALIZED | ILLEGAL | FORKED

record timespec =
  tv_sec :: int
  tv_nsec :: int

record tm =
  tm_year :: int
  tm_mon :: int
  tm_mday :: int
  tm_hour :: int
  tm_min :: int
  tm_sec :: int

text \<open>The thread-specific data; a channel is \<open>True\<close> once its socket exists.\<close>

record tsd_s =
  log_channel :: bool
  ctl_channel :: bool
  tid_tsd :: nat
  thread_rank_tsd :: nat

record log_header_s =
  level_hdr :: bxilog_level_e
  detail_time :: timespec
  tid :: nat
  thread_rank :: nat
  line_nb :: int
  filename_len :: nat
  funcname_len :: nat
  logname_len :: nat
  variable_len :: nat
  logmsg_len :: nat

text \<open>A record frame: the header, then the bytes that follow it.\<close>

record frame =
  header :: log_header_s
  tail :: string

text \<open>
  What the platform answers to the calls of the library. One value fixes the outcome of
  every call a function makes: return codes, the errors of the \<open>bxizmq\<close> and \<open>bxitime\<close>
  helpers (their code is not among the sources), the string received on the control
  channel, and what each \<open>write\<close> returns, given the number of earlier writes on the same
  descriptor and the bytes passed. \<open>zmq_ctx_destroy\<close> is interrupted (\<open>EINTR\<close>)
  \<open>ctx_destroy_interrupts\<close> times, then returns \<open>ctx_destroy_rc\<close>.
\<close>

record platform =
  mutex_lock_rc :: int
  mutex_unlock_rc :: int
  getpid :: nat
  zmq_ctx_new :: bool
  attr_init_rc :: int
  pthread_create_rc :: int
  tsd_key_once_rc :: int
  atfork_once_rc :: int
  zocket_log :: bxierr_p
  zocket_ctl :: bxierr_p
  gettid :: nat
  pthread_self :: nat
  setspecific_rc :: int
  snd_str :: bxierr_p
  rcv_str :: "bxierr_p \<times> string option"
  pthread_join_rc :: int
  iht_err :: bxierr_p
  ctx_destroy_interrupts :: nat
  ctx_destroy_rc :: int
  bxitime_get :: "bxierr_p \<times> timespec"
  snd_data_zc :: bxierr_p
  localtime_r :: "int \<Rightarrow> tm option"
  write_sink :: "nat \<Rightarrow> string \<Rightarrow> int"
  write_stderr :: "nat \<Rightarrow> string \<Rightarrow> int"
  msg_close :: bxierr_p

text \<open>
  The process-wide variables, the thread-specific data of the calling thread, and what the
  calls have sent so far: the frames pushed on the data channel and the requests sent on
  the control channel. The logging macros of \<open>log.h\<close> (\<open>DEBUG\<close>, \<open>LOWEST\<close>,
  \<open>WARNING\<close>, on the internal logger) start a nested log call; the model records the
  level and the text in \<open>internal_logs\<close> and does not unfold the call.
\<close>

record bxilog_globals =
  STATE :: bxilog_state_e
  BXILOG_CONTEXT :: bool
  PROGNAME :: "string option"
  PROGNAME_LEN :: nat
  FILENAME :: "string option"
  FILENAME_LEN :: nat
  data_url :: "string option"
  control_url :: "string option"
  PID :: nat
  IHT_DATA_tid :: nat
  IHT_DATA_rank :: nat
  tsd :: "tsd_s option"
  data_channel :: "frame list"
  control_channel :: "string list"
  internal_logs :: "(bxilog_level_e \<times> string) list"

definition sizeof_pointer :: nat where
  "sizeof_pointer = 8"

definition initial_globals :: bxilog_globals where
  "initial_globals =
     \<lparr> STATE = UNSET, BXILOG_CONTEXT = False,
       PROGNAME = None, PROGNAME_LEN = sizeof_pointer,
       FILENAME = None, FILENAME_LEN = sizeof_pointer,
       data_url = None, control_url = None, PID = 0,
       IHT_DATA_tid = 0, IHT_DATA_rank = 0, tsd = None,
       data_channel = [], control_channel = [], internal_logs = [] \<rparr>"

definition DEFAULT_LOG_BUF_SIZE :: nat where
  "DEFAULT_LOG_BUF_SIZE = 128"

definition READY_CTRL_MSG_REQ :: string where
  "READY_CTRL_MSG_REQ = ''BC->IH: ready?''"

definition READY_CTRL_MSG_REP :: string where
  "READY_CTRL_MSG_REP = ''IH->BC: ready!''"

definition EXIT_CTRL_MSG_REQ :: string where
  "EXIT_CTRL_MSG_REQ = ''BC->IH: exit?''"

definition FLUSH_CTRL_MSG_REQ :: string where
  "FLUSH_CTRL_MSG_REQ = ''BC->IH: flush?''"

definition FLUSH_CTRL_MSG_REP :: string where
  "FLUSH_CTRL_MSG_REP = ''IH->BC: flushed!''"

subsection \<open>Numbers as \<open>printf\<close> writes them\<close>

definition digit_char :: "nat \<Rightarrow> char" where
  "digit_char d = ''0123456789'' ! d"

function dec :: "nat \<Rightarrow> string" where
  "dec n = (if n < 10 then [digit_char n] else dec (n div 10) @ [digit_char (n mod 10)])"
  by pat_completeness auto
termination
  by (relation "measure id") auto

declare dec.simps [simp del]

text \<open>\<open>%0*u\<close> and \<open>%0*d\<close>: at least \<open>w\<close> characters, padded with zeros on the left.\<close>

definition fmt_0u :: "nat \<Rightarrow> nat \<Rightarrow> string" where
  "fmt_0u w v = replicate (w - length (dec v)) (CHR ''0'') @ dec v"

definition fmt_0d :: "nat \<Rightarrow> int \<Rightarrow> string" where
  "fmt_0d w v =
     (if v < 0 then CHR ''-'' # fmt_0u (w - 1) (nat (- v)) else fmt_0u w (nat v))"

subsection \<open>Thread-specific data\<close>

definition get_tsd :: "platform \<Rightarrow> bxilog_globals
    \<Rightarrow> fault + (bxierr_p \<times> tsd_s \<times> bxilog_globals)" where
  "get_tsd E s =
     (case tsd s of
        Some t \<Rightarrow> Inr (BXIERR_OK, t, s)
      | None \<Rightarrow>
          if data_url s = None then Inl AssertFailed
          else if bxierr_isko (zocket_log E)
          then Inr (zocket_log E,
                 \<lparr>log_channel = False, ctl_channel = False, tid_tsd = 0, thread_rank_tsd = 0\<rparr>, s)
          else if bxierr_isko (zocket_ctl E)
          then Inr (zocket_ctl E,
                 \<lparr>log_channel = True, ctl_channel = False, tid_tsd = 0, thread_rank_tsd = 0\<rparr>, s)
          else if setspecific_rc E \<noteq> 0 then Inl AssertFailed
          else let t = \<lparr>log_channel = True, ctl_channel = True, tid_tsd = gettid E,
                         thread_rank_tsd = pthread_self E mod 65536\<rparr>
               in Inr (BXIERR_OK, t, s\<lparr>tsd := Some t\<rparr>))"

subsection \<open>\<open>bxilog_init\<close> and \<open>bxilog_finalize\<close>\<close>

definition create_iht :: "platform \<Rightarrow> bxierr_p" where
  "create_iht E =
     BXIERR_CHAIN
       (BXIERR_CHAIN BXIERR_OK
          (if attr_init_rc E \<noteq> 0 then [BXIERR_GEN ''Calling pthread_attr_init() failed'']
           else BXIERR_OK))
       (if pthread_create_rc E \<noteq> 0 then [BXIERR_GEN ''Calling pthread_attr_init() failed'']
        else BXIERR_OK)"

definition static_init :: "platform \<Rightarrow> bxilog_globals \<Rightarrow> fault + (bxierr_p \<times> bxilog_globals)" where
  "static_init E s =
     (if mutex_lock_rc E \<noteq> 0
      then Inr ([BXIERR_GEN ''Calling pthread_mutex_lock() failed''], s)
      else let s1 = s\<lparr>PID := getpid E\<rparr> in
      if STATE s1 \<noteq> UNSET \<and> STATE s1 \<noteq> FINALIZED
      then Inr ([BXILOG_ILLEGAL_STATE_ERR], s1\<lparr>STATE := ILLEGAL\<rparr>)
      else let s2 = s1\<lparr>STATE := INITIALIZING\<rparr> in
      if BXILOG_CONTEXT s2 then Inl AssertFailed
      else if \<not> zmq_ctx_new E
      then Inr ([BXIERR_GEN ''Cannot create a zmq context''], s2\<lparr>STATE := ILLEGAL\<rparr>)
      else let s3 = s2\<lparr>BXILOG_CONTEXT := True,
                        data_url := Some (''inproc://'' @ dec (getpid E) @ ''_data''),
                        control_url := Some (''inproc://'' @ dec (getpid E) @ ''_control'')\<rparr> in
      if bxierr_isko (create_iht E) then Inr (create_iht E, s3)
      else if mutex_unlock_rc E \<noteq> 0
      then Inr ([BXIERR_GEN ''Calling pthread_mutex_unlock() failed''], s3\<lparr>STATE := ILLEGAL\<rparr>)
      else if tsd_key_once_rc E \<noteq> 0
      then Inr ([BXIERR_GEN ''Calling pthread_mutex_unlock() failed''], s3\<lparr>STATE := ILLEGAL\<rparr>)
      else (case get_tsd E s3 of
              Inl f \<Rightarrow> Inl f
            | Inr (err, t, s4) \<Rightarrow>
                if bxierr_isko err then Inr (err, s4)
                else if bxierr_isko (snd_str E) then Inr (snd_str E, s4)
                else let s5 = s4\<lparr>control_channel := control_channel s4 @ [READY_CTRL_MSG_REQ]\<rparr> in
                (case rcv_str E of
                   (rerr, ready) \<Rightarrow>
                     if bxierr_isko rerr then Inr (rerr, s5)
                     else (case ready of
                             None \<Rightarrow> Inl AssertFailed
                           | Some r \<Rightarrow>
                               if r \<noteq> READY_CTRL_MSG_REP then Inl AssertFailed
                               else Inr (rerr, s5)))))"

definition bxilog_init :: "platform \<Rightarrow> string option \<Rightarrow> string option \<Rightarrow> bxilog_globals
    \<Rightarrow> fault + (bxierr_p \<times> bxilog_globals)" where
  "bxilog_init E progname fn s =
     (if UNSET \<noteq> STATE s \<and> FINALIZED \<noteq> STATE s then Inr ([BXILOG_ILLEGAL_STATE_ERR], s)
      else (case fn of
              None \<Rightarrow> Inr ([BXILOG_CONFIG_ERR], s)
            | Some f \<Rightarrow>
                (case progname of
                   None \<Rightarrow> Inl NullDeref
                 | Some pn \<Rightarrow>
                     (case static_init E
                             (s\<lparr>FILENAME := Some f, FILENAME_LEN := strlen f,
                                PROGNAME := Some pn, PROGNAME_LEN := strlen pn + 1\<rparr>) of
                        Inl f \<Rightarrow> Inl f
                      | Inr (err, s1) \<Rightarrow>
                          if bxierr_isko err then Inr (err, s1)
                          else if INITIALIZING \<noteq> STATE s1 then Inl AssertFailed
                          else if atfork_once_rc E \<noteq> 0
                          then Inr ([BXIERR_GEN ''Calling pthread_once() failed''], s1)
                          else Inr (BXIERR_OK,
                                 s1\<lparr>STATE := INITIALIZED,
                                    internal_logs := internal_logs s1 @
                                      [(BXILOG_DEBUG, ''Initialization done.'')]\<rparr>)))))"

definition code_is_retries_max :: "bxierr_p \<Rightarrow> bool" where
  "code_is_retries_max err = (case err of BXIZMQ_RETRIES_MAX_ERR k # cause \<Rightarrow> True | _ \<Rightarrow> False)"

text \<open>
  \<open>_end_iht\<close> sends the exit request and frees the thread-specific data. The request is
  on the channel unless \<open>bxizmq_snd_str\<close> failed with another error than the count of
  its retries.
\<close>

definition end_iht :: "platform \<Rightarrow> bxilog_globals \<Rightarrow> fault + (bxierr_p \<times> bxilog_globals)" where
  "end_iht E s =
     (case get_tsd E s of
        Inl f \<Rightarrow> Inl f
      | Inr (err, t, s1) \<Rightarrow>
          if bxierr_isko err then Inr (err, s1)
          else if code_is_retries_max (snd_str E) \<or> \<not> bxierr_isko (snd_str E)
          then Inr (BXIERR_OK,
                 s1\<lparr>control_channel := control_channel s1 @ [EXIT_CTRL_MSG_REQ], tsd := None\<rparr>)
          else Inr (snd_str E, s1\<lparr>tsd := None\<rparr>))"

primrec zmq_ctx_destroy_loop :: "nat \<Rightarrow> int \<Rightarrow> int" where
  "zmq_ctx_destroy_loop 0 rc = rc"
| "zmq_ctx_destroy_loop (Suc k) rc = zmq_ctx_destroy_loop k rc"

definition static_finalize :: "platform \<Rightarrow> bxilog_globals
    \<Rightarrow> fault + (bxierr_p \<times> bxilog_globals)" where
  "static_finalize E s =
     (if INITIALIZED \<noteq> STATE s then Inr ([BXILOG_ILLEGAL_STATE_ERR], s\<lparr>STATE := ILLEGAL\<rparr>)
      else (case end_iht E (s\<lparr>STATE := FINALIZING\<rparr>) of
              Inl f \<Rightarrow> Inl f
            | Inr (err, s1) \<Rightarrow>
                let err1 = (if pthread_join_rc E \<noteq> 0
                            then BXIERR_CHAIN err
                                   [BXIERR_GEN ''Cannot join the internal handler thread.'']
                            else BXIERR_CHAIN err (iht_err E));
                    err2 = (if zmq_ctx_destroy_loop (ctx_destroy_interrupts E) (ctx_destroy_rc E)
                                 = - 1
                            then BXIERR_CHAIN err1 [BXIERR_GEN ''Cannot destroy context'']
                            else err1)
                in Inr (err2, s1\<lparr>BXILOG_CONTEXT := False, data_url := None,
                                  control_url := None\<rparr>)))"

definition bxilog_finalize :: "platform \<Rightarrow> bxilog_globals
    \<Rightarrow> fault + (bxierr_p \<times> bxilog_globals)" where
  "bxilog_finalize E s =
     (if INITIALIZED \<noteq> STATE s then Inr ([BXILOG_ILLEGAL_STATE_ERR], s)
      else (case static_finalize E
                   (s\<lparr>internal_logs := internal_logs s @ [(BXILOG_DEBUG, ''Exiting bxilog'')]\<rparr>) of
              Inl f \<Rightarrow> Inl f
            | Inr (err, s1) \<Rightarrow>
                if bxierr_isko err then Inr (err, s1)
                else if FINALIZING \<noteq> STATE s1 then Inl AssertFailed
                else Inr (err, s1\<lparr>FILENAME := None, PROGNAME := None, STATE := FINALIZED\<rparr>)))"

subsection \<open>\<open>bxilog_flush\<close> and the log operation\<close>

definition bxilog_flush :: "platform \<Rightarrow> bxilog_globals \<Rightarrow> fault + (bxierr_p \<times> bxilog_globals)" where
  "bxilog_flush E s =
     (if INITIALIZED \<noteq> STATE s then Inr (BXIERR_OK, s)
      else (case get_tsd E
                   (s\<lparr>internal_logs := internal_logs s @
                        [(BXILOG_DEBUG, ''Requesting a flush().'')]\<rparr>) of
              Inl f \<Rightarrow> Inl f
            | Inr (err, t, s1) \<Rightarrow>
                if bxierr_isko err then Inr (err, s1)
                else if bxierr_isko (snd_str E) then Inr (snd_str E, s1)
                else let s2 = s1\<lparr>control_channel := control_channel s1 @ [FLUSH_CTRL_MSG_REQ]\<rparr> in
                (case rcv_str E of
                   (rerr, reply) \<Rightarrow>
                     if bxierr_isko rerr then Inr (rerr, s2)
                     else (case reply of
                             None \<Rightarrow> Inl NullDeref
                           | Some r \<Rightarrow>
                               if r \<noteq> FLUSH_CTRL_MSG_REP then Inr ([BXILOG_IHT2BC_PROTO_ERR], s2)
                               else Inr (BXIERR_OK, s2)))))"

text \<open>\<open>memcpy(data, str, n)\<close> from a C string: its characters, its \<open>NUL\<close>, nothing beyond.\<close>

definition memcpy_str :: "string \<Rightarrow> nat \<Rightarrow> fault + string" where
  "memcpy_str str n = (if n \<le> length str + 1 then Inr (take n (str @ [NUL])) else Inl OutOfBounds)"

text \<open>
  \<open>bxilog_vlog_nolevelcheck\<close>. The format and its arguments are given by what
  \<open>vsnprintf\<close> makes of them: the formatted message, or \<open>None\<close> when it fails. Modelled from the spec: \<open>bxizmq_snd_data_zc\<close> is not among the
  sources; the spec says that after \<open>RETRIES_MAX\<close> retries the send falls back to a
  blocking one, so the frame is on the channel when the call succeeds and when it reports
  the count of its retries.
\<close>

definition bxilog_vlog_nolevelcheck :: "platform \<Rightarrow> bxilog_s \<Rightarrow> bxilog_level_e
    \<Rightarrow> string \<Rightarrow> nat \<Rightarrow> string \<Rightarrow> nat \<Rightarrow> int \<Rightarrow> string option \<Rightarrow> bxilog_globals
    \<Rightarrow> fault + (bxierr_p \<times> bxilog_globals)" where
  "bxilog_vlog_nolevelcheck E logger lvl filename fn_len funcname func_len line formatted s =
     (if INITIALIZED \<noteq> STATE s then Inr (BXIERR_OK, s)
      else (case get_tsd E s of
              Inl f \<Rightarrow> Inl f
            | Inr (err, t, s1) \<Rightarrow>
                if bxierr_isko err then Inr (err, s1)
                else (case formatted of
                        None \<Rightarrow> Inl AssertFailed
                      | Some logmsg \<Rightarrow>
                          let s2 = (if length logmsg < DEFAULT_LOG_BUF_SIZE then s1
                                    else s1\<lparr>internal_logs := internal_logs s1 @
                                           [(BXILOG_LOWEST,
                                             ''Not enough space to log inside tsd log_buf'')]\<rparr>);
                              msg_len = length logmsg + 1;
                              var_len = fn_len + func_len + name_length logger
                          in (case bxitime_get E of
                                (cerr, now) \<Rightarrow>
                                  if bxierr_isko cerr then Inr (cerr, s2)
                                  else (case (memcpy_str filename fn_len,
                                              memcpy_str funcname func_len,
                                              memcpy_str (name logger) (name_length logger)) of
                                          (Inr b1, Inr b2, Inr b3) \<Rightarrow>
                                            let fr = \<lparr>header =
                                                        \<lparr>level_hdr = lvl, detail_time = now,
                                                         tid = tid_tsd t,
                                                         thread_rank = thread_rank_tsd t,
                                                         line_nb = line, filename_len = fn_len,
                                                         funcname_len = func_len,
                                                         logname_len = name_length logger,
                                                         variable_len = var_len,
                                                         logmsg_len = msg_len\<rparr>,
                                                      tail = b1 @ b2 @ b3 @ logmsg @ [NUL]\<rparr>;
                                                s3 = s2\<lparr>data_channel := data_channel s2 @ [fr]\<rparr>
                                            in if \<not> bxierr_isko (snd_data_zc E) then Inr (BXIERR_OK, s3)
                                               else if \<not> code_is_retries_max (snd_data_zc E)
                                               then Inr (snd_data_zc E, s2)
                                               else Inr (BXIERR_OK,
                                                      s3\<lparr>internal_logs := internal_logs s3 @
                                                           [(BXILOG_WARNING,
                                                             ''Sending last log required retries.'')]\<rparr>)
                                        | _ \<Rightarrow> Inl OutOfBounds)))))"


section \<open>The internal handler thread\<close>

text \<open>
  What the handler has written: every \<open>write\<close> on the sink descriptor and on standard
  error, with the bytes passed and the value returned, and what \<open>fprintf\<close> printed on
  standard error.
\<close>

record iht_io =
  sink_writes :: "(string \<times> int) list"
  stderr_writes :: "(string \<times> int) list"
  stderr_printed :: "string list"

definition YEAR_SIZE :: nat where "YEAR_SIZE = 4"
definition MONTH_SIZE :: nat where "MONTH_SIZE = 2"
definition DAY_SIZE :: nat where "DAY_SIZE = 2"
definition HOUR_SIZE :: nat where "HOUR_SIZE = 2"
definition MINUTE_SIZE :: nat where "MINUTE_SIZE = 2"
definition SECOND_SIZE :: nat where "SECOND_SIZE = 2"
definition SUBSECOND_SIZE :: nat where "SUBSECOND_SIZE = 9"
definition PID_SIZE :: nat where "PID_SIZE = 5"
definition TID_SIZE :: nat where "TID_SIZE = 5"
definition THREAD_RANK_SIZE :: nat where "THREAD_RANK_SIZE = 5"

definition FIXED_LOG_SIZE :: nat where
  "FIXED_LOG_SIZE = 2 + YEAR_SIZE + MONTH_SIZE + DAY_SIZE +
                    1 + HOUR_SIZE + MINUTE_SIZE + SECOND_SIZE + 1 + SUBSECOND_SIZE +
                    1 + PID_SIZE + 1 + TID_SIZE + 1 + THREAD_RANK_SIZE +
                    1 + 1 + 1 + 1 + 1 + 1"

text \<open>
  \<open>_basename(path, path_len)\<close>: \<open>path\<close> is the bytes from the pointer to the end of
  the frame; the result is the offset the function adds to the pointer. The loop reads
  \<open>path[c]\<close> for \<open>c\<close> from \<open>path_len\<close> down to 1.
\<close>

fun basename_loop :: "string \<Rightarrow> nat \<Rightarrow> fault + nat" where
  "basename_loop path 0 = Inr 0"
| "basename_loop path (Suc c) =
     (if Suc c \<ge> length path then Inl OutOfBounds
      else if path ! Suc c = CHR ''/'' then Inr (Suc (Suc c))
      else basename_loop path c)"

definition basename :: "string \<Rightarrow> nat \<Rightarrow> fault + nat" where
  "basename path path_len = (if path_len > 0 then basename_loop path path_len else Inl AssertFailed)"

text \<open>The C string that starts at an offset of a buffer: the bytes up to the next \<open>NUL\<close>.\<close>

definition cstring_at :: "string \<Rightarrow> nat \<Rightarrow> fault + string" where
  "cstring_at buf off =
     (if NUL \<in> set (drop off buf) then Inr (takeWhile (\<lambda>c. c \<noteq> NUL) (drop off buf))
      else Inl OutOfBounds)"

text \<open>
  \<open>LOG_FMT\<close> up to the message: the text \<open>snprintf\<close> puts before the last \<open>%s\<close>.
\<close>

definition log_prefix :: "char \<Rightarrow> tm \<Rightarrow> int \<Rightarrow> nat \<Rightarrow> nat \<Rightarrow> nat \<Rightarrow> string \<Rightarrow> string \<Rightarrow> int
    \<Rightarrow> string \<Rightarrow> string \<Rightarrow> string" where
  "log_prefix lvl now nsec pid tid_v rank prog filename line funcname loggername =
     lvl # ''|''
     @ fmt_0d YEAR_SIZE (tm_year now + 1900) @ fmt_0d MONTH_SIZE (tm_mon now + 1)
     @ fmt_0d DAY_SIZE (tm_mday now)
     @ ''T'' @ fmt_0d HOUR_SIZE (tm_hour now) @ fmt_0d MINUTE_SIZE (tm_min now)
     @ fmt_0d SECOND_SIZE (tm_sec now)
     @ ''.'' @ fmt_0d SUBSECOND_SIZE nsec
     @ ''|'' @ fmt_0u PID_SIZE pid @ ''.'' @ fmt_0u TID_SIZE tid_v
     @ ''='' @ fmt_0u THREAD_RANK_SIZE rank @ '':'' @ prog
     @ ''|'' @ filename @ '':'' @ fmt_0d 0 line @ ''@'' @ funcname
     @ ''|'' @ loggername @ ''|''"

text \<open>
  \<open>snprintf(buf, n, ...)\<close> returns the length of the whole text and leaves at most
  \<open>n - 1\<close> of its characters in \<open>buf\<close>, then a \<open>NUL\<close>.
\<close>

definition snprintf_buf :: "nat \<Rightarrow> string \<Rightarrow> string" where
  "snprintf_buf n full = (if n = 0 then [] else take (n - 1) full @ [NUL])"

definition mkmsg :: "platform \<Rightarrow> bxilog_globals \<Rightarrow> nat \<Rightarrow> char \<Rightarrow> timespec \<Rightarrow> nat \<Rightarrow> nat
    \<Rightarrow> string \<Rightarrow> int \<Rightarrow> string \<Rightarrow> string \<Rightarrow> string \<Rightarrow> fault + (string \<times> nat)" where
  "mkmsg E G n lvl t tid_v rank filename line funcname loggername logmsg =
     (case localtime_r E (tv_sec t) of
        None \<Rightarrow> Inl AssertFailed
      | Some now \<Rightarrow>
          (case PROGNAME G of
             None \<Rightarrow> Inl NullDeref
           | Some prog \<Rightarrow>
               let full = log_prefix lvl now (tv_nsec t) (PID G) tid_v rank prog
                            filename line funcname loggername @ logmsg @ [NL];
                   written = length full
               in if written \<le> n then Inr (snprintf_buf n full, written)
                  else Inl AssertFailed))"

definition cant_write_note :: "string \<Rightarrow> string" where
  "cant_write_note fname =
     ''[W] Can'' @ [CHR 0x27] @ ''t write to '' @ fname @ '', writing to stderr instead.'' @ [NL]"

definition log_single_line :: "platform \<Rightarrow> bxilog_globals \<Rightarrow> log_header_s
    \<Rightarrow> string \<Rightarrow> string \<Rightarrow> string \<Rightarrow> string \<Rightarrow> nat \<Rightarrow> iht_io \<Rightarrow> fault + iht_io" where
  "log_single_line E G hdr filename funcname loggername line line_len io =
     (case mkmsg E G (FIXED_LOG_SIZE + PROGNAME_LEN G + variable_len hdr + line_len + 1)
             (LOG_LEVEL_STR ! level_num (level_hdr hdr)) (detail_time hdr) (tid hdr)
             (thread_rank hdr) filename (line_nb hdr) funcname loggername line of
        Inl f \<Rightarrow> Inl f
      | Inr (msg, loglen) \<Rightarrow>
          let written = write_sink E (length (sink_writes io)) (take loglen msg);
              io1 = io\<lparr>sink_writes := sink_writes io @ [(take loglen msg, written)]\<rparr>
          in if 0 \<ge> written
             then (case FILENAME G of
                     None \<Rightarrow> Inl NullDeref
                   | Some fname \<Rightarrow>
                       let str = cant_write_note fname @ [NUL];
                           n1 = write_stderr E (length (stderr_writes io1)) str;
                           io2 = io1\<lparr>stderr_writes := stderr_writes io1 @ [(str, n1)]\<rparr>
                       in if n1 \<ge> 0
                          then let n2 = write_stderr E (length (stderr_writes io2)) (take loglen msg);
                                   io3 = io2\<lparr>stderr_writes := stderr_writes io2 @
                                              [(take loglen msg, n2)]\<rparr>
                               in if n2 \<ge> 0 then Inr io3 else Inl AssertFailed
                          else Inl AssertFailed)
             else Inr io1)"

text \<open>
  A call \<open>_log_single_line(header, filename, funcname, loggername, s, len)\<close> made by
  \<open>_process_data\<close>. The four pointers point into the frame: \<open>buf\<close> is the bytes that
  follow the header as they are when the call is made, \<open>c\<close> the offset \<open>_basename\<close>
  returned and \<open>s\<close> the offset of the line. \<open>_mkmsg\<close> prints each of them with
  \<open>%s\<close>, the bytes up to the next \<open>NUL\<close>, after its assertion on \<open>localtime_r\<close>.
\<close>

definition log_single_line_at :: "platform \<Rightarrow> bxilog_globals \<Rightarrow> log_header_s \<Rightarrow> string
    \<Rightarrow> nat \<Rightarrow> nat \<Rightarrow> nat \<Rightarrow> iht_io \<Rightarrow> fault + iht_io" where
  "log_single_line_at E G hdr buf c s len io =
     (case (cstring_at buf c, cstring_at buf (filename_len hdr),
            cstring_at buf (filename_len hdr + funcname_len hdr), cstring_at buf s) of
        (Inr filename, Inr funcname, Inr loggername, Inr line) \<Rightarrow>
          log_single_line E G hdr filename funcname loggername line len io
      | _ \<Rightarrow> if localtime_r E (tv_sec (detail_time hdr)) = None then Inl AssertFailed
             else Inl OutOfBounds)"

text \<open>
  The loop of \<open>_process_data\<close> that cuts the message into lines. \<open>before\<close> is the bytes
  of the frame before \<open>next\<close>, as the loop has left them, and the last list the bytes from
  \<open>next\<close> on; \<open>s\<close> is the offset of the line that is being read and \<open>len\<close> the
  counter of that name. At a newline the loop writes \<open>NUL\<close> over it, in the frame itself,
  before it calls \<open>_log_single_line\<close>; it then sets \<open>len = 0\<close> and, as for every byte,
  counts one more.
\<close>

fun cut_lines_loop :: "platform \<Rightarrow> bxilog_globals \<Rightarrow> log_header_s \<Rightarrow> nat \<Rightarrow> string \<Rightarrow> nat \<Rightarrow> nat
    \<Rightarrow> string \<Rightarrow> iht_io \<Rightarrow> fault + iht_io" where
  "cut_lines_loop E G hdr c before s len [] io = Inl OutOfBounds"
| "cut_lines_loop E G hdr c before s len (x # cs) io =
     (if x = NUL then log_single_line_at E G hdr (before @ x # cs) c s len io
      else if x = NL
      then (case log_single_line_at E G hdr (before @ NUL # cs) c s len io of
              Inl f \<Rightarrow> Inl f
            | Inr io1 \<Rightarrow>
                cut_lines_loop E G hdr c (before @ [NUL]) (Suc (length before)) 1 cs io1)
      else cut_lines_loop E G hdr c (before @ [x]) s (len + 1) cs io)"

text \<open>
  What \<open>zmq_msg_init\<close> and \<open>zmq_msg_recv\<close> give \<open>_process_data\<close> (after the calls that
  \<open>EINTR\<close> interrupted): a failure, or a frame at least as long as a header.
  \<open>_process_data\<close> slices the frame by the lengths of its header: the file name starts at
  offset 0 of the bytes that follow the header, the function name at \<open>filename_len\<close>, the
  logger name at \<open>filename_len + funcname_len\<close> and the message after the three.
\<close>

datatype recv_result = Msg_init_failed | Recv_ETERM | Recv_failed | Received frame

definition process_data :: "platform \<Rightarrow> bxilog_globals \<Rightarrow> recv_result \<Rightarrow> iht_io
    \<Rightarrow> fault + (bxierr_p \<times> iht_io)" where
  "process_data E G rcv io =
     (case rcv of
        Msg_init_failed \<Rightarrow> Inr ([BXIERR_GEN ''Cannot initialize message content''], io)
      | Recv_ETERM \<Rightarrow>
          Inr (BXIERR_CHAIN [BXIERR_GEN ''Calling zmq_msg_recv() failed''] (msg_close E), io)
      | Recv_failed \<Rightarrow> Inr ([BXIERR_GEN ''Problem while receiving header''], io)
      | Received fr \<Rightarrow>
          let hdr = header fr; buf = tail fr;
              logmsg = filename_len hdr + funcname_len hdr + logname_len hdr in
          (case basename buf (filename_len hdr) of
             Inl f \<Rightarrow> Inl f
           | Inr c \<Rightarrow>
               (case cut_lines_loop E G hdr c (take logmsg buf) logmsg 0 (drop logmsg buf) io of
                  Inl f \<Rightarrow> Inl f
                | Inr io1 \<Rightarrow>
                    if bxierr_isko (msg_close E)
                    then let str = take sizeof_pointer
                                     (''[W] Can'' @ [CHR 0x27] @ ''t close zmg msg'' @ [NUL]);
                             n = write_stderr E (length (stderr_writes io1)) str
                         in if n \<ge> 0
                            then Inr (BXIERR_OK,
                                   io1\<lparr>stderr_writes := stderr_writes io1 @ [(str, n)]\<rparr>)
                            else Inl AssertFailed
                    else Inr (BXIERR_OK, io1))))"

text \<open>
  \<open>_iht_log\<close>, the handler's own log call: when the clock cannot be read it prints a
  message and goes on with the time zero.
\<close>

definition iht_log_LINE :: int where
  "iht_log_LINE = 1501"

definition iht_log :: "platform \<Rightarrow> bxilog_globals \<Rightarrow> bxilog_level_e \<Rightarrow> string \<Rightarrow> iht_io
    \<Rightarrow> fault + (bxierr_p \<times> iht_io)" where
  "iht_log E G lvl str io =
     (case bxitime_get E of
        (cerr, t) \<Rightarrow>
          let now = (if bxierr_isko cerr then \<lparr>tv_sec = 0, tv_nsec = 0\<rparr> else t);
              io1 = (if bxierr_isko cerr
                     then io\<lparr>stderr_printed := stderr_printed io @
                               [''Calling bxitime_get() failed'']\<rparr>
                     else io)
          in (case FILENAME G of
                None \<Rightarrow> Inl NullDeref
              | Some fname \<Rightarrow>
                  (case mkmsg E G (FIXED_LOG_SIZE + PROGNAME_LEN G + FILENAME_LEN G
                                     + 9 + 11 + strlen str + 1)
                          (LOG_LEVEL_STR ! level_num lvl) now (IHT_DATA_tid G) (IHT_DATA_rank G)
                          fname iht_log_LINE ''_iht_log'' ''bxilog.iht'' str of
                     Inl f \<Rightarrow> Inl f
                   | Inr (msg, loglen) \<Rightarrow>
                       let written = write_sink E (length (sink_writes io1)) (take loglen msg);
                           io2 = io1\<lparr>sink_writes := sink_writes io1 @
                                      [(take loglen msg, written)]\<rparr>
                       in if 0 \<ge> written then Inr ([BXIERR_GEN ''Cannot log''], io2)
                          else Inr (BXIERR_OK, io2))))"

section \<open>The spec's words, for comparison\<close>

text \<open>The segments of a message between its newlines, and the message they make.\<close>

fun spec_split_lines :: "string \<Rightarrow> string list" where
  "spec_split_lines [] = [[]]"
| "spec_split_lines (c # cs) =
     (if c = NL then [] # spec_split_lines cs
      else (case spec_split_lines cs of
              [] \<Rightarrow> [[c]]
            | l # ls \<Rightarrow> (c # l) # ls))"

fun join_lines :: "string list \<Rightarrow> string" where
  "join_lines [] = []"
| "join_lines [l] = l"
| "join_lines (l # l' # ls) = l @ [NL] @ join_lines (l' # ls)"

text \<open>The basename of a path: what follows its last \<open>/\<close>, the whole path when it has none.\<close>

definition spec_basename :: "string \<Rightarrow> string" where
  "spec_basename path = rev (takeWhile (\<lambda>c. c \<noteq> CHR ''/'') (rev path))"

text \<open>The offset of the message in the bytes that follow the header.\<close>

definition message_offset :: "log_header_s \<Rightarrow> nat" where
  "message_offset hdr = filename_len hdr + funcname_len hdr + logname_len hdr"

text \<open>
  The message as the loop of \<open>_process_data\<close> has it at its first call of
  \<open>_log_single_line\<close>: when a newline comes before the \<open>NUL\<close>, the first newline is
  overwritten with \<open>NUL\<close>.
\<close>

fun first_cut :: "string \<Rightarrow> string" where
  "first_cut [] = []"
| "first_cut (x # cs) =
     (if x = NUL then x # cs else if x = NL then NUL # cs else x # first_cut cs)"

text \<open>
  The header fields of a frame as \<open>_mkmsg\<close> renders them: the text of an output line
  before the message segment. The three names are read from the frame as it is at the
  first call of \<open>_log_single_line\<close>. It is \<open>None\<close> when a name cannot be read from
  the frame, \<open>localtime_r\<close> fails or the program name is not set.
\<close>

definition frame_prefix :: "platform \<Rightarrow> bxilog_globals \<Rightarrow> frame \<Rightarrow> string option" where
  "frame_prefix E G fr =
     (let hdr = header fr;
          buf = take (message_offset hdr) (tail fr)
                @ first_cut (drop (message_offset hdr) (tail fr))
      in case basename (tail fr) (filename_len hdr) of
           Inl f \<Rightarrow> None
         | Inr c \<Rightarrow>
             (case (cstring_at buf c, cstring_at buf (filename_len hdr),
                    cstring_at buf (filename_len hdr + funcname_len hdr),
                    localtime_r E (tv_sec (detail_time hdr)), PROGNAME G) of
                (Inr filename, Inr funcname, Inr loggername, Some now, Some prog) \<Rightarrow>
                  Some (log_prefix (LOG_LEVEL_STR ! level_num (level_hdr hdr)) now
                          (tv_nsec (detail_time hdr)) (PID G) (tid hdr)
                          (thread_rank hdr) prog filename (line_nb hdr)
                          funcname loggername)
              | _ \<Rightarrow> None))"

text \<open>
  The loop that cuts the message, without its effects: the lines it passes to
  \<open>_log_single_line\<close> with their \<open>len\<close>, and the calls made on a list of such lines.
\<close>

fun cut_segments :: "string \<Rightarrow> string \<Rightarrow> nat \<Rightarrow> (string \<times> nat) list" where
  "cut_segments [] seg len = [(seg, len)]"
| "cut_segments (c # cs) seg len =
     (if c = NL then (seg, len) # cut_segments cs [] 1
      else cut_segments cs (seg @ [c]) (len + 1))"

fun log_lines :: "platform \<Rightarrow> bxilog_globals \<Rightarrow> log_header_s \<Rightarrow> string \<Rightarrow> string \<Rightarrow> string
    \<Rightarrow> (string \<times> nat) list \<Rightarrow> iht_io \<Rightarrow> fault + iht_io" where
  "log_lines E G hdr filename funcname loggername [] io = Inr io"
| "log_lines E G hdr filename funcname loggername ((line, len) # ls) io =
     (case log_single_line E G hdr filename funcname loggername line len io of
        Inl f \<Rightarrow> Inl f
      | Inr io1 \<Rightarrow> log_lines E G hdr filename funcname loggername ls io1)"

section \<open>Platforms and inputs of the examples\<close>

text \<open>
  A platform on which every call succeeds, and the conditions under which
  \<open>bxilog_init\<close> and \<open>bxilog_finalize\<close> meet no failure of the platform.
\<close>

definition ok_platform :: platform where
  "ok_platform =
     \<lparr> mutex_lock_rc = 0, mutex_unlock_rc = 0, getpid = 11297, zmq_ctx_new = True,
       attr_init_rc = 0, pthread_create_rc = 0, tsd_key_once_rc = 0, atfork_once_rc = 0,
       zocket_log = BXIERR_OK, zocket_ctl = BXIERR_OK, gettid = 11302, pthread_self = 1792,
       setspecific_rc = 0, snd_str = BXIERR_OK, rcv_str = (BXIERR_OK, Some READY_CTRL_MSG_REP),
       pthread_join_rc = 0, iht_err = BXIERR_OK, ctx_destroy_interrupts = 0, ctx_destroy_rc = 0,
       bxitime_get = (BXIERR_OK, \<lparr>tv_sec = 1411024072, tv_nsec = 472145261\<rparr>),
       snd_data_zc = BXIERR_OK,
       localtime_r = (\<lambda>t. Some \<lparr>tm_year = 114, tm_mon = 8, tm_mday = 18,
                                 tm_hour = 9, tm_min = 7, tm_sec = 52\<rparr>),
       write_sink = (\<lambda>k buf. int (length buf)),
       write_stderr = (\<lambda>k buf. int (length buf)),
       msg_close = BXIERR_OK \<rparr>"



text \<open>
  The state after \<open>bxilog_init("prog", "-")\<close> on that platform, from the initial state
  (lemma \<open>bxilog_init_gives_demo_initialized\<close>), and a logger.
\<close>

definition demo_initialized :: bxilog_globals where
  "demo_initialized =
     \<lparr> STATE = INITIALIZED, BXILOG_CONTEXT = True,
       PROGNAME = Some ''prog'', PROGNAME_LEN = 5,
       FILENAME = Some ''-'', FILENAME_LEN = 1,
       data_url = Some ''inproc://11297_data'', control_url = Some ''inproc://11297_control'',
       PID = 11297, IHT_DATA_tid = 0, IHT_DATA_rank = 0,
       tsd = Some \<lparr>log_channel = True, ctl_channel = True, tid_tsd = 11302,
                    thread_rank_tsd = 1792\<rparr>,
       data_channel = [], control_channel = [READY_CTRL_MSG_REQ],
       internal_logs = [(BXILOG_DEBUG, ''Initialization done.'')] \<rparr>"

definition demo_logger :: bxilog_s where
  "demo_logger = \<lparr>name = ''L'', name_length = 2, level = BXILOG_TRACE\<rparr>"

text \<open>
  Platforms that differ from it in one answer: the clock cannot be read; every \<open>write\<close>
  on the sink fails; every \<open>write\<close> on the sink takes 5 bytes.
\<close>

definition clock_fails_platform :: platform where
  "clock_fails_platform =
     ok_platform\<lparr>bxitime_get := ([BXIERR_GEN ''clock_gettime''], \<lparr>tv_sec = 0, tv_nsec = 0\<rparr>)\<rparr>"

definition failed_write_platform :: platform where
  "failed_write_platform = ok_platform\<lparr>write_sink := (\<lambda>k buf. - 1)\<rparr>"

definition short_write_platform :: platform where
  "short_write_platform = ok_platform\<lparr>write_sink := (\<lambda>k buf. 5)\<rparr>"

text \<open>
  A header, a frame with the message of three lines, the line \<open>_mkmsg\<close> renders for the
  message "hello", a frame whose file name is "/a.c", and the handler's output before
  anything is written.
\<close>

definition demo_header :: log_header_s where
  "demo_header =
     \<lparr>level_hdr = BXILOG_INFO,
      detail_time = \<lparr>tv_sec = 1411024072, tv_nsec = 472145261\<rparr>,
      tid = 11302, thread_rank = 1792, line_nb = 10,
      filename_len = 4, funcname_len = 3, logname_len = 2, variable_len = 9,
      logmsg_len = 6\<rparr>"

definition demo_frame :: frame where
  "demo_frame =
     \<lparr>header = demo_header,
      tail = ''f.c'' @ [NUL] @ ''fn'' @ [NUL] @ ''L'' @ [NUL] @ ''a'' @ [NL] @ ''b'' @ [NL] @ ''c''
               @ [NUL]\<rparr>"

definition demo_line :: string where
  "demo_line =
     ''I|20140918T090752.472145261|11297.11302=01792:prog|f.c:10@fn|L|hello'' @ [NL]"

definition slash_frame :: frame where
  "slash_frame =
     \<lparr>header = demo_header\<lparr>filename_len := 5, variable_len := 10\<rparr>,
      tail = ''/a.c'' @ [NUL] @ ''fn'' @ [NUL] @ ''L'' @ [NUL] @ ''hello'' @ [NUL]\<rparr>"

text \<open>
  The frame of the three lines again, sent from line 1000 and from line 12345 of
  \<open>f.c\<close>.
\<close>

definition line_1000_frame :: frame where
  "line_1000_frame = demo_frame\<lparr>header := demo_header\<lparr>line_nb := 1000\<rparr>\<rparr>"

definition line_12345_frame :: frame where
  "line_12345_frame = demo_frame\<lparr>header := demo_header\<lparr>line_nb := 12345\<rparr>\<rparr>"

definition empty_io :: iht_io where
  "empty_io = \<lparr>sink_writes = [], stderr_writes = [], stderr_printed = []\<rparr>"

section \<open>Properties of the registry\<close>

lemma level_num_inj: "level_num a = level_num b \<Longrightarrow> a = b"
  by (cases a; cases b) simp_all

lemma of_char_eq_0: "(of_char c = (0::nat)) = (c = NUL)"
  using of_char_eq_iff[of c NUL, where ?'a = nat] by (simp add: NUL_def)

lemma strlen_no_NUL: "NUL \<notin> set s \<Longrightarrow> strlen s = length s"
  by (induction s) (auto simp: strlen_def)

lemma strncmp_prefix: "NUL \<notin> set p \<Longrightarrow> strncmp p nm (length p) = 0 \<longleftrightarrow> prefix p nm"
proof (induction p arbitrary: nm)
  case Nil
  then show ?case by simp
next
  case (Cons c p)
  show ?case
  proof (cases nm)
    case Nil
    then show ?thesis using Cons.prems by (auto simp: of_char_eq_0)
  next
    case (Cons d nm')
    then show ?thesis using Cons.IH[of nm'] Cons.prems by auto
  qed
qed

lemma set_slot_ptrs: "set (slot_ptrs sl) = {p. Ptr p \<in> set sl}"
  by (induction sl rule: slot_ptrs.induct) auto

lemma is_Ptr_iff: "is_Ptr x \<longleftrightarrow> (\<exists>p. x = Ptr p)"
  by (cases x) auto

lemma cfg_loggers_loop_effect:
  assumes "REGISTERED_LOGGERS s = Some arr"
    and "\<forall>l\<in>set ls. l < length arr \<and> (\<exists>p. arr ! l = Ptr p \<and> loggers s p \<noteq> None)"
    and "NUL \<notin> set pfx"
  shows "\<exists>s'. cfg_loggers_loop pfx (length pfx) lvl ls s = Inr s'
           \<and> s' = s\<lparr>loggers := loggers s'\<rparr>
           \<and> (\<forall>q. loggers s' q =
                 map_option (\<lambda>lg. if (\<exists>l\<in>set ls. arr ! l = Ptr q) \<and> prefix pfx (name lg)
                                  then lg\<lparr>level := lvl\<rparr> else lg) (loggers s q))"
  using assms
proof (induction ls arbitrary: s)
  case Nil
  then show ?case by (simp add: option.map_ident)
next
  case (Cons l ls)
  from Cons.prems obtain p lg where l: "l < length arr" "arr ! l = Ptr p" "loggers s p = Some lg"
    by auto
  define s1 where "s1 = (if strncmp pfx (name lg) (length pfx) = 0
                         then s\<lparr>loggers := (loggers s)(p \<mapsto> lg\<lparr>level := lvl\<rparr>)\<rparr> else s)"
  have step: "cfg_loggers_loop pfx (length pfx) lvl (l # ls) s
                = cfg_loggers_loop pfx (length pfx) lvl ls s1"
    using Cons.prems(1) l by (simp add: s1_def)
  have a1: "REGISTERED_LOGGERS s1 = Some arr" using Cons.prems(1) by (simp add: s1_def)
  have a2: "\<forall>l\<in>set ls. l < length arr \<and> (\<exists>p. arr ! l = Ptr p \<and> loggers s1 p \<noteq> None)"
  proof
    fix l' assume "l' \<in> set ls"
    with Cons.prems(2) obtain p' where "l' < length arr" "arr ! l' = Ptr p'" "loggers s p' \<noteq> None"
      by auto
    moreover have "loggers s1 p' \<noteq> None" using \<open>loggers s p' \<noteq> None\<close> by (simp add: s1_def)
    ultimately show "l' < length arr \<and> (\<exists>p. arr ! l' = Ptr p \<and> loggers s1 p \<noteq> None)" by blast
  qed
  from Cons.IH[OF a1 a2 Cons.prems(3)] obtain s' where
    r: "cfg_loggers_loop pfx (length pfx) lvl ls s1 = Inr s'"
    and fr: "s' = s1\<lparr>loggers := loggers s'\<rparr>"
    and lv: "\<forall>q. loggers s' q =
                 map_option (\<lambda>lg. if (\<exists>l\<in>set ls. arr ! l = Ptr q) \<and> prefix pfx (name lg)
                                  then lg\<lparr>level := lvl\<rparr> else lg) (loggers s1 q)"
    by blast
  have fr': "s' = s\<lparr>loggers := loggers s'\<rparr>"
    using fr by (auto simp: s1_def split: if_splits)
  have m: "(strncmp pfx (name lg) (length pfx) = 0) = prefix pfx (name lg)"
    using strncmp_prefix[OF Cons.prems(3)] by simp
  have final: "\<forall>q. loggers s' q =
                 map_option (\<lambda>lg. if (\<exists>l\<in>set (l # ls). arr ! l = Ptr q) \<and> prefix pfx (name lg)
                                  then lg\<lparr>level := lvl\<rparr> else lg) (loggers s q)"
  proof
    fix q
    show "loggers s' q =
                 map_option (\<lambda>lg. if (\<exists>l\<in>set (l # ls). arr ! l = Ptr q) \<and> prefix pfx (name lg)
                                  then lg\<lparr>level := lvl\<rparr> else lg) (loggers s q)"
    proof (cases "q = p")
      case True
      then show ?thesis using lv[rule_format, of q] l m by (auto simp: s1_def)
    next
      case False
      then have "loggers s1 q = loggers s q" by (simp add: s1_def)
      moreover have "(\<exists>l\<in>set (l # ls). arr ! l = Ptr q) = (\<exists>l\<in>set ls. arr ! l = Ptr q)"
        using False l by auto
      ultimately show ?thesis using lv[rule_format, of q] by simp
    qed
  qed
  show ?case
  proof (intro exI[of _ s'] conjI)
    show "cfg_loggers_loop pfx (length pfx) lvl (l # ls) s = Inr s'" using step r by simp
    show "s' = s\<lparr>loggers := loggers s'\<rparr>" by (rule fr')
    show "\<forall>q. loggers s' q =
                 map_option (\<lambda>lg. if (\<exists>l\<in>set (l # ls). arr ! l = Ptr q) \<and> prefix pfx (name lg)
                                  then lg\<lparr>level := lvl\<rparr> else lg) (loggers s q)"
      by (rule final)
  qed
qed


lemma spec_last_matching_level_Cons:
  "spec_last_matching_level (c # cfg) nm =
     (case spec_last_matching_level cfg nm of
        Some l \<Rightarrow> Some l
      | None \<Rightarrow> if rule_matches nm c then Some (cfg_level c) else None)"
  by (auto simp: spec_last_matching_level_def split: list.splits)

lemma registered_slots:
  assumes "first_nb_non_null s" and "registered_live s" and "REGISTERED_LOGGERS s = Some arr"
  shows "\<forall>l\<in>set [0 ..< REGISTERED_LOGGERS_NB s].
           l < length arr \<and> (\<exists>p. arr ! l = Ptr p \<and> loggers s p \<noteq> None)"
proof
  fix l assume "l \<in> set [0 ..< REGISTERED_LOGGERS_NB s]"
  then have l: "l < REGISTERED_LOGGERS_NB s" by simp
  from assms(1,3) have n: "REGISTERED_LOGGERS_NB s \<le> length arr"
    and a: "list_all is_Ptr (take (REGISTERED_LOGGERS_NB s) arr)"
    by (simp_all add: first_nb_non_null_def)
  from a l n have "is_Ptr (arr ! l)" by (simp add: list_all_length)
  then obtain p where p: "arr ! l = Ptr p" by (auto simp: is_Ptr_iff)
  have "Ptr p \<in> set (take (REGISTERED_LOGGERS_NB s) arr)"
    using l n p by (auto simp: in_set_conv_nth intro!: exI[of _ l])
  then have "p \<in> set (registered s)" using assms(3) by (simp add: registered_def set_slot_ptrs)
  with assms(2) have "loggers s p \<noteq> None" by (simp add: registered_live_def list_all_iff)
  with l n p show "l < length arr \<and> (\<exists>p. arr ! l = Ptr p \<and> loggers s p \<noteq> None)" by auto
qed

lemma registered_by_index:
  assumes "REGISTERED_LOGGERS s = Some arr" and "REGISTERED_LOGGERS_NB s \<le> length arr"
  shows "(q \<in> set (registered s)) = (\<exists>l\<in>set [0 ..< REGISTERED_LOGGERS_NB s]. arr ! l = Ptr q)"
  using assms by (auto simp: registered_def set_slot_ptrs in_set_conv_nth)

lemma cfg_items_loop_effect:
  assumes "first_nb_non_null s" and "registered_live s"
    and "\<forall>c\<in>set cfg. \<exists>pfx. logger_name_prefix c = Some pfx \<and> NUL \<notin> set pfx"
  shows "\<exists>s'. cfg_items_loop cfg s = Inr s'
           \<and> s' = s\<lparr>loggers := loggers s'\<rparr>
           \<and> (\<forall>q. loggers s' q =
                 map_option (\<lambda>lg. if q \<in> set (registered s)
                                  then (case spec_last_matching_level cfg (name lg) of
                                          None \<Rightarrow> lg | Some l \<Rightarrow> lg\<lparr>level := l\<rparr>)
                                  else lg) (loggers s q))"
  using assms
proof (induction cfg arbitrary: s)
  case Nil
  have nil: "\<And>nm. spec_last_matching_level [] nm = None"
    by (simp add: spec_last_matching_level_def)
  have "\<And>q. loggers s q =
                 map_option (\<lambda>lg. if q \<in> set (registered s)
                                  then (case spec_last_matching_level [] (name lg) of
                                          None \<Rightarrow> lg | Some l \<Rightarrow> lg\<lparr>level := l\<rparr>)
                                  else lg) (loggers s q)"
    subgoal for q by (cases "loggers s q") (simp_all add: nil)
    done
  then show ?case by simp
next
  case (Cons c cfg)
  from Cons.prems(3) obtain pfx where pfx: "logger_name_prefix c = Some pfx" "NUL \<notin> set pfx"
    by auto
  have "\<exists>s1. cfg_loggers_loop pfx (strlen pfx) (cfg_level c) [0 ..< REGISTERED_LOGGERS_NB s] s = Inr s1
           \<and> s1 = s\<lparr>loggers := loggers s1\<rparr>
           \<and> (\<forall>q. loggers s1 q =
                 map_option (\<lambda>lg. if q \<in> set (registered s) \<and> prefix pfx (name lg)
                                  then lg\<lparr>level := cfg_level c\<rparr> else lg) (loggers s q))"
  proof (cases "REGISTERED_LOGGERS s")
    case None
    with Cons.prems(1) have "REGISTERED_LOGGERS_NB s = 0" by (simp add: first_nb_non_null_def)
    then show ?thesis using None by (simp add: registered_def option.map_ident)
  next
    case (Some arr)
    from Cons.prems(1) Some have n: "REGISTERED_LOGGERS_NB s \<le> length arr"
      by (simp add: first_nb_non_null_def)
    from cfg_loggers_loop_effect[OF Some registered_slots[OF Cons.prems(1,2) Some] pfx(2),
        of "cfg_level c"]
    show ?thesis
      by (simp add: strlen_no_NUL[OF pfx(2)] registered_by_index[OF Some n])
  qed
  then obtain s1 where
    r1: "cfg_loggers_loop pfx (strlen pfx) (cfg_level c) [0 ..< REGISTERED_LOGGERS_NB s] s = Inr s1"
    and f1: "s1 = s\<lparr>loggers := loggers s1\<rparr>"
    and l1: "\<forall>q. loggers s1 q =
                 map_option (\<lambda>lg. if q \<in> set (registered s) \<and> prefix pfx (name lg)
                                  then lg\<lparr>level := cfg_level c\<rparr> else lg) (loggers s q)"
    by blast
  have same: "REGISTERED_LOGGERS s1 = REGISTERED_LOGGERS s"
             "REGISTERED_LOGGERS_NB s1 = REGISTERED_LOGGERS_NB s"
    by (subst f1, simp)+
  have reg: "registered s1 = registered s" unfolding registered_def same ..
  have i1: "first_nb_non_null s1" using Cons.prems(1) unfolding first_nb_non_null_def same .
  have i2: "registered_live s1"
    using Cons.prems(2) l1 by (auto simp: registered_live_def reg list_all_iff)
  have i3: "\<forall>c\<in>set cfg. \<exists>pfx. logger_name_prefix c = Some pfx \<and> NUL \<notin> set pfx"
    using Cons.prems(3) by simp
  from Cons.IH[OF i1 i2 i3] obtain s' where
    r2: "cfg_items_loop cfg s1 = Inr s'"
    and f2: "s' = s1\<lparr>loggers := loggers s'\<rparr>"
    and l2: "\<forall>q. loggers s' q =
                 map_option (\<lambda>lg. if q \<in> set (registered s1)
                                  then (case spec_last_matching_level cfg (name lg) of
                                          None \<Rightarrow> lg | Some l \<Rightarrow> lg\<lparr>level := l\<rparr>)
                                  else lg) (loggers s1 q)"
    by blast
  have m: "\<And>nm. rule_matches nm c = prefix pfx nm" by (simp add: rule_matches_def pfx)
  show ?case
  proof (intro exI[of _ s'] conjI)
    show "cfg_items_loop (c # cfg) s = Inr s'" using pfx r1 r2 by simp
    show "s' = s\<lparr>loggers := loggers s'\<rparr>" by (subst f2, subst f1, simp)
    show "\<forall>q. loggers s' q =
                 map_option (\<lambda>lg. if q \<in> set (registered s)
                                  then (case spec_last_matching_level (c # cfg) (name lg) of
                                          None \<Rightarrow> lg | Some l \<Rightarrow> lg\<lparr>level := l\<rparr>)
                                  else lg) (loggers s q)"
    proof
      fix q
      show "loggers s' q =
                 map_option (\<lambda>lg. if q \<in> set (registered s)
                                  then (case spec_last_matching_level (c # cfg) (name lg) of
                                          None \<Rightarrow> lg | Some l \<Rightarrow> lg\<lparr>level := l\<rparr>)
                                  else lg) (loggers s q)"
        using l2[rule_format, of q] l1[rule_format, of q]
        by (cases "loggers s q")
           (auto simp: reg spec_last_matching_level_Cons m split: option.splits)
    qed
  qed
qed


lemma bxilog_cfg_registered_effect:
  assumes "first_nb_non_null s" and "registered_live s"
    and "\<forall>c\<in>set cfg. \<exists>pfx. logger_name_prefix c = Some pfx \<and> NUL \<notin> set pfx"
  shows "\<exists>s'. bxilog_cfg_registered cfg s = Inr (BXIERR_OK, s')
           \<and> REGISTERED_LOGGERS s' = REGISTERED_LOGGERS s
           \<and> REGISTERED_LOGGERS_NB s' = REGISTERED_LOGGERS_NB s
           \<and> (\<forall>q. loggers s' q =
                 map_option (\<lambda>lg. if q \<in> set (registered s)
                                  then (case spec_last_matching_level cfg (name lg) of
                                          None \<Rightarrow> lg | Some l \<Rightarrow> lg\<lparr>level := l\<rparr>)
                                  else lg) (loggers s q))"
proof -
  let ?u = "pthread_mutex_unlock s"
  have u1: "first_nb_non_null ?u" using assms(1)
    by (simp add: first_nb_non_null_def pthread_mutex_unlock_def split: option.splits)
  have reg: "registered ?u = registered s"
    by (simp add: registered_def pthread_mutex_unlock_def split: option.splits)
  have u2: "registered_live ?u" using assms(2)
    by (simp add: registered_live_def reg) (simp add: pthread_mutex_unlock_def)
  from cfg_items_loop_effect[OF u1 u2 assms(3)] obtain s1 where
    r: "cfg_items_loop cfg ?u = Inr s1"
    and f: "s1 = ?u\<lparr>loggers := loggers s1\<rparr>"
    and l: "\<forall>q. loggers s1 q =
                 map_option (\<lambda>lg. if q \<in> set (registered ?u)
                                  then (case spec_last_matching_level cfg (name lg) of
                                          None \<Rightarrow> lg | Some l \<Rightarrow> lg\<lparr>level := l\<rparr>)
                                  else lg) (loggers ?u q)"
    by blast
  have same: "REGISTERED_LOGGERS s1 = REGISTERED_LOGGERS s"
             "REGISTERED_LOGGERS_NB s1 = REGISTERED_LOGGERS_NB s"
    by (subst f, simp add: pthread_mutex_unlock_def)+
  have lg: "loggers ?u = loggers s" by (simp add: pthread_mutex_unlock_def)
  show ?thesis
  proof (intro exI[of _ "pthread_mutex_unlock s1"] conjI)
    show "bxilog_cfg_registered cfg s = Inr (BXIERR_OK, pthread_mutex_unlock s1)"
      by (simp add: bxilog_cfg_registered_def r)
    show "REGISTERED_LOGGERS (pthread_mutex_unlock s1) = REGISTERED_LOGGERS s"
      by (simp add: pthread_mutex_unlock_def same)
    show "REGISTERED_LOGGERS_NB (pthread_mutex_unlock s1) = REGISTERED_LOGGERS_NB s"
      by (simp add: pthread_mutex_unlock_def same)
    show "\<forall>q. loggers (pthread_mutex_unlock s1) q =
                 map_option (\<lambda>lg. if q \<in> set (registered s)
                                  then (case spec_last_matching_level cfg (name lg) of
                                          None \<Rightarrow> lg | Some l \<Rightarrow> lg\<lparr>level := l\<rparr>)
                                  else lg) (loggers s q)"
      using l unfolding reg lg by (simp add: pthread_mutex_unlock_def)
  qed
qed

lemma example_cfg_prefixes:
  "\<forall>c\<in>set example_cfg. \<exists>pfx. logger_name_prefix c = Some pfx \<and> NUL \<notin> set pfx"
  by (simp add: example_cfg_def NUL_def)

lemma example_cfg_total:
  "spec_last_matching_level example_cfg nm \<noteq> None"
  by (simp add: spec_last_matching_level_def example_cfg_def rule_matches_def)

text \<open>
  Where the invariant holds: for every registry whose first \<open>REGISTERED_LOGGERS_NB\<close>
  slots point to loggers, \<open>bxilog_cfg_registered\<close> with the rules (prefix "", lowest),
  (prefix "a", output), (prefix "a.b", warning) returns \<open>BXIERR_OK\<close> and leaves every
  registered logger at the level of the last rule whose prefix is a prefix of its name:
  "a.b.x" at warning (not enabled for info), "a.c" at output (not enabled for debug), "a.b"
  at warning (enabled for warning), "z" at lowest (enabled for debug).
\<close>

lemma configure_example_last_matching_rule:
  assumes "first_nb_non_null s" and "registered_live s"
  shows "\<exists>s'. bxilog_cfg_registered example_cfg s = Inr (BXIERR_OK, s')
           \<and> (\<forall>p\<in>set (registered s). \<exists>lg lg'.
                 loggers s p = Some lg \<and> loggers s' p = Some lg' \<and> name lg' = name lg
               \<and> spec_last_matching_level example_cfg (name lg) = Some (level lg')
               \<and> (name lg = ''a.b.x'' \<longrightarrow>
                    level lg' = BXILOG_WARNING \<and> \<not> bxilog_is_enabled_for lg' BXILOG_INFO)
               \<and> (name lg = ''a.c'' \<longrightarrow>
                    level lg' = BXILOG_OUTPUT \<and> \<not> bxilog_is_enabled_for lg' BXILOG_DEBUG)
               \<and> (name lg = ''a.b'' \<longrightarrow>
                    level lg' = BXILOG_WARNING \<and> bxilog_is_enabled_for lg' BXILOG_WARNING)
               \<and> (name lg = ''z'' \<longrightarrow>
                    level lg' = BXILOG_LOWEST \<and> bxilog_is_enabled_for lg' BXILOG_DEBUG))"
proof -
  from bxilog_cfg_registered_effect[OF assms example_cfg_prefixes] obtain s' where
    r: "bxilog_cfg_registered example_cfg s = Inr (BXIERR_OK, s')"
    and l: "\<forall>q. loggers s' q =
                 map_option (\<lambda>lg. if q \<in> set (registered s)
                                  then (case spec_last_matching_level example_cfg (name lg) of
                                          None \<Rightarrow> lg | Some l \<Rightarrow> lg\<lparr>level := l\<rparr>)
                                  else lg) (loggers s q)"
    by blast
  have "\<exists>lg lg'.
                 loggers s p = Some lg \<and> loggers s' p = Some lg' \<and> name lg' = name lg
               \<and> spec_last_matching_level example_cfg (name lg) = Some (level lg')
               \<and> (name lg = ''a.b.x'' \<longrightarrow>
                    level lg' = BXILOG_WARNING \<and> \<not> bxilog_is_enabled_for lg' BXILOG_INFO)
               \<and> (name lg = ''a.c'' \<longrightarrow>
                    level lg' = BXILOG_OUTPUT \<and> \<not> bxilog_is_enabled_for lg' BXILOG_DEBUG)
               \<and> (name lg = ''a.b'' \<longrightarrow>
                    level lg' = BXILOG_WARNING \<and> bxilog_is_enabled_for lg' BXILOG_WARNING)
               \<and> (name lg = ''z'' \<longrightarrow>
                    level lg' = BXILOG_LOWEST \<and> bxilog_is_enabled_for lg' BXILOG_DEBUG)"
    if p: "p \<in> set (registered s)" for p
  proof -
    from assms(2) p obtain lg where lg: "loggers s p = Some lg"
      by (auto simp: registered_live_def list_all_iff)
    from example_cfg_total[of "name lg"] obtain lv where
      lv: "spec_last_matching_level example_cfg (name lg) = Some lv" by auto
    have lg': "loggers s' p = Some (lg\<lparr>level := lv\<rparr>)"
      using l[rule_format, of p] p lg lv by simp
    have c1: "name lg = ''a.b.x'' \<Longrightarrow> lv = BXILOG_WARNING"
      using lv by (simp add: spec_last_matching_level_def example_cfg_def rule_matches_def)
    have c2: "name lg = ''a.c'' \<Longrightarrow> lv = BXILOG_OUTPUT"
      using lv by (simp add: spec_last_matching_level_def example_cfg_def rule_matches_def)
    have c3: "name lg = ''a.b'' \<Longrightarrow> lv = BXILOG_WARNING"
      using lv by (simp add: spec_last_matching_level_def example_cfg_def rule_matches_def)
    have c4: "name lg = ''z'' \<Longrightarrow> lv = BXILOG_LOWEST"
      using lv by (simp add: spec_last_matching_level_def example_cfg_def rule_matches_def)
    show ?thesis
      using lg lg' lv c1 c2 c3 c4 by (auto simp: bxilog_is_enabled_for_def)
  qed
  with r show ?thesis by blast
qed

lemma take_Suc_update: "n < length xs \<Longrightarrow> take (Suc n) (xs[n := x]) = take n xs @ [x]"
  by (simp add: take_Suc_conv_app_nth)

lemma slot_ptrs_append: "slot_ptrs (xs @ ys) = slot_ptrs xs @ slot_ptrs ys"
  by (induction xs rule: slot_ptrs.induct) simp_all

lemma register_grow_effect:
  assumes "first_nb_non_null s" and "array_sized s"
  shows "\<exists>arr. REGISTERED_LOGGERS (register_grow s) = Some arr
           \<and> REGISTERED_LOGGERS_NB s < length arr
           \<and> length arr = REGISTERED_LOGGERS_ARRAY_SIZE (register_grow s)
           \<and> take (REGISTERED_LOGGERS_NB s) arr
               = (case REGISTERED_LOGGERS s of None \<Rightarrow> []
                  | Some a \<Rightarrow> take (REGISTERED_LOGGERS_NB s) a)
           \<and> REGISTERED_LOGGERS_NB (register_grow s) = REGISTERED_LOGGERS_NB s
           \<and> loggers (register_grow s) = loggers s
           \<and> register_lock (register_grow s) = register_lock s"
proof (cases "REGISTERED_LOGGERS s")
  case None
  then show ?thesis using assms
    by (simp add: register_grow_def first_nb_non_null_def array_sized_def bximem_calloc_def)
next
  case (Some a)
  then show ?thesis using assms
    by (auto simp: register_grow_def first_nb_non_null_def array_sized_def bximem_realloc_def)
qed

lemma bxilog_register_effect:
  assumes "first_nb_non_null s" and "array_sized s"
  shows "\<exists>s'. bxilog_register (Some p) s = Inr s'
           \<and> first_nb_non_null s' \<and> array_sized s'
           \<and> registered s' = registered s @ [p]
           \<and> loggers s' = loggers s
           \<and> REGISTERED_LOGGERS_NB s' = Suc (REGISTERED_LOGGERS_NB s)
           \<and> register_lock s' = register_lock s @ [MUTEX_LOCK, MUTEX_UNLOCK]"
proof -
  let ?l = "pthread_mutex_lock s"
  have l1: "first_nb_non_null ?l" "array_sized ?l"
    using assms
    by (simp_all add: first_nb_non_null_def array_sized_def pthread_mutex_lock_def
          split: option.splits)
  from register_grow_effect[OF l1] obtain arr where
    g: "REGISTERED_LOGGERS (register_grow ?l) = Some arr"
       "REGISTERED_LOGGERS_NB ?l < length arr"
       "length arr = REGISTERED_LOGGERS_ARRAY_SIZE (register_grow ?l)"
       "take (REGISTERED_LOGGERS_NB ?l) arr
               = (case REGISTERED_LOGGERS ?l of None \<Rightarrow> []
                  | Some a \<Rightarrow> take (REGISTERED_LOGGERS_NB ?l) a)"
       "REGISTERED_LOGGERS_NB (register_grow ?l) = REGISTERED_LOGGERS_NB ?l"
       "loggers (register_grow ?l) = loggers ?l"
       "register_lock (register_grow ?l) = register_lock ?l"
    by blast
  have nb: "REGISTERED_LOGGERS_NB ?l = REGISTERED_LOGGERS_NB s"
    and ra: "REGISTERED_LOGGERS ?l = REGISTERED_LOGGERS s"
    by (simp_all add: pthread_mutex_lock_def)
  have old: "list_all is_Ptr (take (REGISTERED_LOGGERS_NB s) arr)"
    using g(4) assms(1) unfolding nb ra
    by (simp add: first_nb_non_null_def split: option.splits)
  have regs: "slot_ptrs (take (REGISTERED_LOGGERS_NB s) arr) = registered s"
    using g(4) unfolding nb ra by (simp add: registered_def split: option.splits)
  show ?thesis
    using g old regs unfolding nb
    by (simp add: bxilog_register_def Let_def pthread_mutex_unlock_def first_nb_non_null_def
          array_sized_def registered_def take_Suc_update slot_ptrs_append)
       (simp add: pthread_mutex_lock_def)
qed

lemma initial_registry_inv:
  "first_nb_non_null (initial_registry h) \<and> array_sized (initial_registry h)
   \<and> registered (initial_registry h) = [] \<and> loggers (initial_registry h) = h"
  by (simp add: initial_registry_def first_nb_non_null_def array_sized_def registered_def
        REGISTERED_LOGGERS_DEFAULT_ARRAY_SIZE_def)

lemma register_all_effect:
  assumes "first_nb_non_null s" and "array_sized s"
  shows "\<exists>s'. register_all ps s = Inr s'
           \<and> first_nb_non_null s' \<and> array_sized s'
           \<and> registered s' = registered s @ ps
           \<and> loggers s' = loggers s"
  using assms
proof (induction ps arbitrary: s)
  case Nil
  then show ?case by simp
next
  case (Cons p ps)
  from bxilog_register_effect[OF Cons.prems, of p] obtain s1 where
    s1: "bxilog_register (Some p) s = Inr s1" "first_nb_non_null s1" "array_sized s1"
        "registered s1 = registered s @ [p]" "loggers s1 = loggers s"
    by blast
  from Cons.IH[OF s1(2,3)] s1 show ?case by auto
qed

text \<open>
  The four loggers of the example, registered one after the other in a fresh registry, then
  configured: the invariant holds of that registry.
\<close>

lemma configure_four_loggers:
  "\<exists>s. register_all [0, 1, 2, 3] (initial_registry demo_loggers) = Inr s
       \<and> first_nb_non_null s \<and> registered_live s \<and> registered s = [0, 1, 2, 3]
       \<and> (\<exists>s' l0 l1 l2 l3.
             bxilog_cfg_registered example_cfg s = Inr (BXIERR_OK, s')
           \<and> loggers s' 0 = Some l0 \<and> name l0 = ''a.b.x'' \<and> level l0 = BXILOG_WARNING
           \<and> \<not> bxilog_is_enabled_for l0 BXILOG_INFO
           \<and> loggers s' 1 = Some l1 \<and> name l1 = ''a.c'' \<and> level l1 = BXILOG_OUTPUT
           \<and> \<not> bxilog_is_enabled_for l1 BXILOG_DEBUG
           \<and> loggers s' 2 = Some l2 \<and> name l2 = ''a.b'' \<and> level l2 = BXILOG_WARNING
           \<and> bxilog_is_enabled_for l2 BXILOG_WARNING
           \<and> loggers s' 3 = Some l3 \<and> name l3 = ''z'' \<and> level l3 = BXILOG_LOWEST
           \<and> bxilog_is_enabled_for l3 BXILOG_DEBUG)"
proof -
  from register_all_effect[of "initial_registry demo_loggers" "[0, 1, 2, 3]"]
    initial_registry_inv[of demo_loggers]
  obtain s where s: "register_all [0, 1, 2, 3] (initial_registry demo_loggers) = Inr s"
    "first_nb_non_null s" "registered s = [0, 1, 2, 3]" "loggers s = demo_loggers"
    by auto
  have live: "registered_live s"
    by (simp add: registered_live_def s demo_loggers_def)
  from configure_example_last_matching_rule[OF s(2) live] obtain s' where
    r: "bxilog_cfg_registered example_cfg s = Inr (BXIERR_OK, s')"
    and a: "\<forall>p\<in>set (registered s). \<exists>lg lg'.
                 loggers s p = Some lg \<and> loggers s' p = Some lg' \<and> name lg' = name lg
               \<and> spec_last_matching_level example_cfg (name lg) = Some (level lg')
               \<and> (name lg = ''a.b.x'' \<longrightarrow>
                    level lg' = BXILOG_WARNING \<and> \<not> bxilog_is_enabled_for lg' BXILOG_INFO)
               \<and> (name lg = ''a.c'' \<longrightarrow>
                    level lg' = BXILOG_OUTPUT \<and> \<not> bxilog_is_enabled_for lg' BXILOG_DEBUG)
               \<and> (name lg = ''a.b'' \<longrightarrow>
                    level lg' = BXILOG_WARNING \<and> bxilog_is_enabled_for lg' BXILOG_WARNING)
               \<and> (name lg = ''z'' \<longrightarrow>
                    level lg' = BXILOG_LOWEST \<and> bxilog_is_enabled_for lg' BXILOG_DEBUG)"
    by blast
  from a[rule_format, of 0] a[rule_format, of 1] a[rule_format, of 2] a[rule_format, of 3]
  have "\<exists>l0 l1 l2 l3.
             loggers s' 0 = Some l0 \<and> name l0 = ''a.b.x'' \<and> level l0 = BXILOG_WARNING
           \<and> \<not> bxilog_is_enabled_for l0 BXILOG_INFO
           \<and> loggers s' 1 = Some l1 \<and> name l1 = ''a.c'' \<and> level l1 = BXILOG_OUTPUT
           \<and> \<not> bxilog_is_enabled_for l1 BXILOG_DEBUG
           \<and> loggers s' 2 = Some l2 \<and> name l2 = ''a.b'' \<and> level l2 = BXILOG_WARNING
           \<and> bxilog_is_enabled_for l2 BXILOG_WARNING
           \<and> loggers s' 3 = Some l3 \<and> name l3 = ''z'' \<and> level l3 = BXILOG_LOWEST
           \<and> bxilog_is_enabled_for l3 BXILOG_DEBUG"
    by (auto simp: s demo_loggers_def)
  with s live r show ?thesis by blast
qed

text \<open>
  The calls \<open>bxilog_cfg_registered\<close> makes on the mutex, on every path that returns:
  two \<open>pthread_mutex_unlock\<close>, no \<open>pthread_mutex_lock\<close>.
\<close>

lemma cfg_loggers_loop_lock:
  "cfg_loggers_loop pfx len lvl ls s = Inr s' \<Longrightarrow> register_lock s' = register_lock s"
  by (induction ls arbitrary: s) (auto split: option.splits if_splits slot.splits)

lemma cfg_items_loop_lock:
  "cfg_items_loop cfg s = Inr s' \<Longrightarrow> register_lock s' = register_lock s"
  by (induction cfg arbitrary: s)
     (auto split: option.splits sum.splits dest: cfg_loggers_loop_lock)

lemma bxilog_cfg_registered_lock_calls:
  "bxilog_cfg_registered cfg s = Inr (e, s')
   \<Longrightarrow> register_lock s' = register_lock s @ [MUTEX_UNLOCK, MUTEX_UNLOCK]"
  by (auto simp: bxilog_cfg_registered_def pthread_mutex_unlock_def
           split: sum.splits dest: cfg_items_loop_lock)

text \<open>
  Claim C7. Register, unregister and configure are to lock the registry mutex before they
  touch the registry and to unlock it after. \<open>bxilog_register\<close> does
  (\<open>bxilog_register_effect\<close>); \<open>bxilog_cfg_registered\<close>, called with the rules of the
  example on a fresh registry, unlocks the mutex twice and never locks it.
\<close>

theorem cfg_registered_unlocks_first:
  "map_sum id (\<lambda>r. (fst r, register_lock (snd r)))
     (bxilog_cfg_registered example_cfg (initial_registry demo_loggers))
   = Inr (BXIERR_OK, [MUTEX_UNLOCK, MUTEX_UNLOCK])"
  by (simp add: bxilog_cfg_registered_def example_cfg_def initial_registry_def
        pthread_mutex_unlock_def strlen_def)

text \<open>
  Claim C9. The first \<open>REGISTERED_LOGGERS_NB\<close> slots are to stay non-\<open>NULL\<close>.
  \<open>bxilog_register\<close> keeps it so (\<open>bxilog_register_effect\<close>). After two loggers
  are registered and the first is unregistered, the count is 1, slot 0 is \<open>NULL\<close> and
  the logger still registered sits in slot 1, beyond the count.
\<close>

theorem unregister_first_leaves_null_slot:
  "map_sum id (\<lambda>s. (REGISTERED_LOGGERS_NB s, map_option (take 2) (REGISTERED_LOGGERS s),
                    first_nb_non_null s, registered s)) unregister_scenario
   = Inr (1, Some [NULL_slot, Ptr 1], False, [])"
  by code_simp

text \<open>In that state \<open>bxilog_cfg_registered\<close> reads the name of a logger through \<open>NULL\<close>.\<close>

lemma configure_after_unregister:
  "map_sum id fst
     (case unregister_scenario of Inl f \<Rightarrow> Inl f | Inr s \<Rightarrow> bxilog_cfg_registered example_cfg s)
   = Inl NullDeref"
  by code_simp

text \<open>
  Claim C1. For every set of registered loggers, configuring with the rules of the example
  is to leave each logger at the level of the last rule that matches its name. After the
  four loggers of the example are registered and the second is unregistered, the loggers
  "a.b.x", "a.b" and "z" are registered still; the count is 3 and the four slots are
  "a.b.x", \<open>NULL\<close>, "a.b", "z". \<open>bxilog_cfg_registered\<close> sets no level for "a.b" and
  "z": under the first rule it reaches slot 1 and reads the name of a logger through
  \<open>NULL\<close>.
\<close>

theorem configure_after_unregister_second:
  "map_sum id (\<lambda>s. (REGISTERED_LOGGERS_NB s, map_option (take 4) (REGISTERED_LOGGERS s),
                    map_sum id fst (bxilog_cfg_registered example_cfg s)))
     unregister_second_scenario
   = Inr (3, Some [Ptr 0, NULL_slot, Ptr 2, Ptr 3], Inl NullDeref)"
  by code_simp

text \<open>
  Claim C10. \<open>bxilog_set_level\<close> is to accept each of the twelve levels. Called with
  \<open>BXILOG_DEBUG\<close> its assertion \<open>BXILOG_CRITICAL >= level\<close> fails.
\<close>

theorem set_level_debug_aborts:
  "bxilog_set_level (Some 0) BXILOG_DEBUG (initial_registry demo_loggers) = Inl AssertFailed"
  by (simp add: bxilog_set_level_def)

text \<open>
  The assertion fails for each of the nine levels after critical; for panic, alert and
  critical the level is set and \<open>bxilog_get_level\<close> returns it.
\<close>

lemma bxilog_set_level_above_critical:
  "2 < level_num lvl \<Longrightarrow> bxilog_set_level logger lvl s = Inl AssertFailed"
  by (simp add: bxilog_set_level_def split: option.splits)

lemma bxilog_set_get_level:
  "level_num lvl \<le> 2 \<Longrightarrow> loggers s p \<noteq> None \<Longrightarrow>
   \<exists>s'. bxilog_set_level (Some p) lvl s = Inr s' \<and> bxilog_get_level (Some p) s' = Inr lvl"
  by (auto simp: bxilog_set_level_def bxilog_get_level_def)

section \<open>Properties of the lifecycle and of the log operation\<close>









text \<open>Whenever one of the two returns \<open>BXIERR_OK\<close>, it has published its state.\<close>

lemma init_ok_only_initialized:
  "bxilog_init E pn fn s = Inr (BXIERR_OK, s') \<Longrightarrow> STATE s' = INITIALIZED"
  by (auto simp: bxilog_init_def bxierr_isko_def BXIERR_OK_def
           split: if_splits option.splits sum.splits prod.splits)

lemma finalize_ok_only_finalized:
  "bxilog_finalize E s = Inr (BXIERR_OK, s') \<Longrightarrow> STATE s' = FINALIZED"
  by (auto simp: bxilog_finalize_def bxierr_isko_def BXIERR_OK_def
           split: if_splits option.splits sum.splits prod.splits)



lemma demo_initialized_state:
  "STATE demo_initialized = INITIALIZED \<and> tsd demo_initialized \<noteq> None
   \<and> data_channel demo_initialized = []"
  by (simp add: demo_initialized_def)

lemma dec_11297: "dec 11297 = ''11297''"
  by (simp add: dec.simps digit_char_def)

lemma bxilog_init_gives_demo_initialized:
  "bxilog_init ok_platform (Some ''prog'') (Some ''-'') initial_globals
     = Inr (BXIERR_OK, demo_initialized)"
  by (simp add: demo_initialized_def bxilog_init_def static_init_def get_tsd_def
        ok_platform_def initial_globals_def create_iht_def BXIERR_CHAIN_def bxierr_isko_def
        BXIERR_OK_def Let_def strlen_def NUL_def dec_11297 READY_CTRL_MSG_REP_def)



text \<open>
  Claim C3. When the state is not \<open>INITIALIZED\<close>, the log operation returns
  \<open>BXIERR_OK\<close> and changes nothing (no frame on the data channel), and \<open>bxilog_flush\<close>
  returns \<open>BXIERR_OK\<close> and changes nothing (no request on the control channel).
\<close>

theorem not_initialized_log_and_flush_are_noops:
  "STATE s \<noteq> INITIALIZED \<Longrightarrow>
     bxilog_vlog_nolevelcheck E logger lvl filename fn_len funcname func_len line formatted s
       = Inr (BXIERR_OK, s)
   \<and> bxilog_flush E s = Inr (BXIERR_OK, s)"
  by (auto simp: bxilog_vlog_nolevelcheck_def bxilog_flush_def)

theorem not_initialized_witness:
  "STATE initial_globals \<noteq> INITIALIZED
   \<and> bxilog_vlog_nolevelcheck ok_platform demo_logger BXILOG_INFO ''f.c'' 4 ''fn'' 3 10
       (Some ''hello'') initial_globals = Inr (BXIERR_OK, initial_globals)
   \<and> bxilog_flush ok_platform initial_globals = Inr (BXIERR_OK, initial_globals)"
proof -
  have "STATE initial_globals \<noteq> INITIALIZED" by (simp add: initial_globals_def)
  with not_initialized_log_and_flush_are_noops[of initial_globals ok_platform demo_logger
      BXILOG_INFO "''f.c''" 4 "''fn''" 3 10 "Some ''hello''"]
  show ?thesis by simp
qed

text \<open>In the state \<open>INITIALIZED\<close> the same call puts its frame on the data channel.\<close>

lemma log_enqueues_frame:
  "map_sum id (\<lambda>r. (fst r, map tail (data_channel (snd r)),
                    map (detail_time \<circ> header) (data_channel (snd r))))
       (bxilog_vlog_nolevelcheck ok_platform demo_logger BXILOG_INFO
          ''f.c'' 4 ''fn'' 3 10 (Some ''hello'') demo_initialized)
     = Inr (BXIERR_OK, [''f.c'' @ [NUL] @ ''fn'' @ [NUL] @ ''L'' @ [NUL] @ ''hello'' @ [NUL]],
            [\<lparr>tv_sec = 1411024072, tv_nsec = 472145261\<rparr>])"
  by (simp add: demo_initialized_def bxilog_init_def static_init_def get_tsd_def
        ok_platform_def initial_globals_def create_iht_def BXIERR_CHAIN_def bxierr_isko_def
        BXIERR_OK_def Let_def bxilog_vlog_nolevelcheck_def memcpy_str_def demo_logger_def
        DEFAULT_LOG_BUF_SIZE_def)

text \<open>
  When the clock cannot be read, \<open>bxilog_vlog_nolevelcheck\<close> returns the error of
  \<open>bxitime_get\<close> and sends nothing.
\<close>

lemma vlog_clock_failure:
  assumes "STATE s = INITIALIZED" and "tsd s = Some t" and "bxierr_isko (fst (bxitime_get E))"
  shows "\<exists>s'. bxilog_vlog_nolevelcheck E logger lvl filename fn_len funcname func_len line
                 (Some logmsg) s = Inr (fst (bxitime_get E), s')
              \<and> data_channel s' = data_channel s"
  using assms
  by (cases "bxitime_get E")
     (auto simp: bxilog_vlog_nolevelcheck_def get_tsd_def Let_def bxierr_isko_def BXIERR_OK_def)

text \<open>
  Claim C5. A log call during which the clock cannot be read is to go on with a zero
  timestamp and return success. \<open>bxilog_vlog_nolevelcheck\<close>, called in the state
  \<open>INITIALIZED\<close> on a platform whose clock fails, returns the clock's error and leaves
  the data channel empty.
\<close>

theorem log_returns_clock_error:
  "STATE demo_initialized = INITIALIZED
   \<and> map_sum id (\<lambda>r. (fst r, data_channel (snd r)))
       (bxilog_vlog_nolevelcheck clock_fails_platform demo_logger BXILOG_INFO
          ''f.c'' 4 ''fn'' 3 10 (Some ''hello'') demo_initialized)
     = Inr ([BXIERR_GEN ''clock_gettime''], [])"
proof -
  from demo_initialized_state obtain t where t: "tsd demo_initialized = Some t" by auto
  have k: "bxierr_isko (fst (bxitime_get clock_fails_platform))"
    by (simp add: clock_fails_platform_def bxierr_isko_def BXIERR_OK_def)
  have f: "fst (bxitime_get clock_fails_platform) = [BXIERR_GEN ''clock_gettime'']"
    by (simp add: clock_fails_platform_def)
  from vlog_clock_failure[OF _ t k, of demo_logger BXILOG_INFO "''f.c''" 4 "''fn''" 3 10 "''hello''"]
    demo_initialized_state
  show ?thesis by (auto simp: f)
qed

text \<open>
  The handler's own \<open>_iht_log\<close> does what the claim says: with a failing clock it prints
  a message on standard error and goes on as it does with a clock that reads zero.
\<close>

lemma iht_log_clock_failure:
  assumes "bxierr_isko (fst (bxitime_get E))"
  shows "iht_log E G lvl str io
           = iht_log (E\<lparr>bxitime_get := (BXIERR_OK, \<lparr>tv_sec = 0, tv_nsec = 0\<rparr>)\<rparr>) G lvl str
               (io\<lparr>stderr_printed := stderr_printed io @ [''Calling bxitime_get() failed'']\<rparr>)"
proof -
  let ?E = "E\<lparr>bxitime_get := (BXIERR_OK, \<lparr>tv_sec = 0, tv_nsec = 0\<rparr>)\<rparr>"
  have mk: "mkmsg ?E G n c t ti r fname l fn lg m = mkmsg E G n c t ti r fname l fn lg m"
    for n c t ti r fname l fn lg m
    by (simp add: mkmsg_def)
  have ws: "write_sink ?E = write_sink E" by simp
  obtain cerr t where c: "bxitime_get E = (cerr, t)" by (cases "bxitime_get E")
  with assms have ko: "bxierr_isko cerr" by simp
  have ok: "\<not> bxierr_isko BXIERR_OK" by (simp add: bxierr_isko_def)
  show ?thesis
    unfolding iht_log_def c mk ws by (simp add: ko ok)
qed

text \<open>
  Whether its line is then written is another matter. \<open>_iht_log\<close> counts
  \<open>FILENAME_LEN\<close>, which \<open>bxilog_init\<close> sets to the length of the file name
  without its \<open>NUL\<close>, and leaves no room for the four digits of its line number: after
  \<open>bxilog_init\<close> its buffer is one byte shorter than its line, and the assertion
  \<open>written <= n\<close> of \<open>_mkmsg\<close> fails.
\<close>

lemma iht_log_buffer_short:
  "iht_log ok_platform demo_initialized BXILOG_DEBUG ''Initialization done.'' empty_io
     = Inl AssertFailed"
  by (simp add: iht_log_def mkmsg_def ok_platform_def demo_initialized_def Let_def
        bxierr_isko_def BXIERR_OK_def strlen_def NUL_def iht_log_LINE_def
        log_prefix_def fmt_0d_def fmt_0u_def dec.simps digit_char_def LOG_LEVEL_STR_def
        FIXED_LOG_SIZE_def YEAR_SIZE_def MONTH_SIZE_def DAY_SIZE_def HOUR_SIZE_def
        MINUTE_SIZE_def SECOND_SIZE_def SUBSECOND_SIZE_def PID_SIZE_def TID_SIZE_def
        THREAD_RANK_SIZE_def)

section \<open>Properties of the handler\<close>

lemma NUL_neq_NL: "NUL \<noteq> NL"
  by (simp add: NUL_def NL_def)

lemma spec_split_lines_nonempty: "spec_split_lines m \<noteq> []"
  by (induction m) (auto split: list.splits)

lemma cut_segments_lines:
  "map fst (cut_segments m seg len)
     = (seg @ hd (spec_split_lines m)) # tl (spec_split_lines m)"
proof (induction m arbitrary: seg len)
  case Nil
  then show ?case by simp
next
  case (Cons c m)
  then show ?case
    using spec_split_lines_nonempty[of m] by (cases "spec_split_lines m") auto
qed

lemma cut_segments_lens:
  "length seg \<le> len \<Longrightarrow> list_all (\<lambda>(l, n). length l \<le> n) (cut_segments m seg len)"
  by (induction m arbitrary: seg len) auto

lemma spec_split_lines_count: "length (spec_split_lines m) = count_list m NL + 1"
  by (induction m) (auto split: list.splits simp: spec_split_lines_nonempty)

lemma spec_split_lines_join: "join_lines (spec_split_lines m) = m"
proof (induction m)
  case Nil
  then show ?case by simp
next
  case (Cons c m)
  then show ?case
    by (cases "spec_split_lines m"; cases "tl (spec_split_lines m)")
       (auto simp: spec_split_lines_nonempty split: list.splits)
qed

lemma spec_split_lines_no_NL: "\<forall>seg\<in>set (spec_split_lines m). NL \<notin> set seg"
  by (induction m) (auto split: list.splits)

lemma cstring_at_split:
  assumes "cstring_at buf off = Inr m"
  shows "\<exists>rest. drop off buf = m @ NUL # rest \<and> NUL \<notin> set m"
proof -
  let ?d = "drop off buf"
  from assms have in_d: "NUL \<in> set ?d" and m: "m = takeWhile (\<lambda>c. c \<noteq> NUL) ?d"
    by (auto simp: cstring_at_def split: if_splits)
  have "dropWhile (\<lambda>c. c \<noteq> NUL) ?d \<noteq> []" using in_d by (simp add: dropWhile_eq_Nil_conv)
  then obtain x rest where dw: "dropWhile (\<lambda>c. c \<noteq> NUL) ?d = x # rest"
    by (cases "dropWhile (\<lambda>c. c \<noteq> NUL) ?d") auto
  then have "x = NUL" using hd_dropWhile[of "\<lambda>c. c \<noteq> NUL" ?d] by auto
  moreover have "?d = takeWhile (\<lambda>c. c \<noteq> NUL) ?d @ dropWhile (\<lambda>c. c \<noteq> NUL) ?d" by simp
  moreover have "NUL \<notin> set m" unfolding m by (auto dest: set_takeWhileD)
  ultimately show ?thesis using dw m by auto
qed

lemma take_snprintf_buf:
  "k = length full \<Longrightarrow> length full < n \<Longrightarrow> take k (snprintf_buf n full) = full"
  by (simp add: snprintf_buf_def)

lemma cstring_at_append_NUL:
  assumes "off \<le> length a"
  shows "cstring_at (a @ NUL # x) off = Inr (takeWhile (\<lambda>c. c \<noteq> NUL) (drop off a))"
proof -
  have d: "drop off (a @ NUL # x) = drop off a @ NUL # x" using assms by simp
  have tw: "takeWhile (\<lambda>c. c \<noteq> NUL) (drop off a @ NUL # x)
              = takeWhile (\<lambda>c. c \<noteq> NUL) (drop off a)"
    by (simp add: takeWhile_tail)
  show ?thesis unfolding cstring_at_def d tw by simp
qed

lemma cstring_at_line:
  assumes "NUL \<notin> set seg"
  shows "cstring_at (pre @ seg @ NUL # x) (length pre) = Inr seg"
proof -
  have "takeWhile (\<lambda>c. c \<noteq> NUL) seg = seg"
    using assms by (induction seg) auto
  with cstring_at_append_NUL[of "length pre" "pre @ seg" x] show ?thesis by simp
qed

lemma cut_lines_loop_segments:
  assumes "NUL \<notin> set m" and "NUL \<notin> set seg"
    and "\<forall>x. cstring_at (pre @ seg @ takeWhile (\<lambda>c. c \<noteq> NL) m @ NUL # x) c = Inr filename"
    and "\<forall>x. cstring_at (pre @ seg @ takeWhile (\<lambda>c. c \<noteq> NL) m @ NUL # x) (filename_len hdr)
               = Inr funcname"
    and "\<forall>x. cstring_at (pre @ seg @ takeWhile (\<lambda>c. c \<noteq> NL) m @ NUL # x)
               (filename_len hdr + funcname_len hdr) = Inr loggername"
  shows "cut_lines_loop E G hdr c (pre @ seg) (length pre) len (m @ NUL # r) io
           = log_lines E G hdr filename funcname loggername (cut_segments m seg len) io"
  using assms
proof (induction m arbitrary: pre seg len io)
  case Nil
  from Nil.prems(3)[rule_format, of r] Nil.prems(4)[rule_format, of r]
    Nil.prems(5)[rule_format, of r] cstring_at_line[OF Nil.prems(2), of pre r]
  show ?case by (simp add: log_single_line_at_def split: sum.splits)
next
  case (Cons x m)
  from Cons.prems(1) have x: "x \<noteq> NUL" and m: "NUL \<notin> set m" by auto
  show ?case
  proof (cases "x = NL")
    case True
    have call: "log_single_line_at E G hdr ((pre @ seg) @ NUL # m @ NUL # r) c (length pre) len io
                  = log_single_line E G hdr filename funcname loggername seg len io"
      using Cons.prems(3)[rule_format, of "m @ NUL # r"]
        Cons.prems(4)[rule_format, of "m @ NUL # r"]
        Cons.prems(5)[rule_format, of "m @ NUL # r"]
        cstring_at_line[OF Cons.prems(2), of pre "m @ NUL # r"] True
      by (simp add: log_single_line_at_def)
    have ih: "cut_lines_loop E G hdr c ((pre @ seg @ [NUL]) @ []) (length (pre @ seg @ [NUL])) 1
                (m @ NUL # r) io1
              = log_lines E G hdr filename funcname loggername (cut_segments m [] 1) io1" for io1
    proof (rule Cons.IH[OF m])
      show "NUL \<notin> set []" by simp
      show "\<forall>x. cstring_at ((pre @ seg @ [NUL]) @ [] @ takeWhile (\<lambda>c. c \<noteq> NL) m @ NUL # x) c
                  = Inr filename"
        using Cons.prems(3) True by simp
      show "\<forall>x. cstring_at ((pre @ seg @ [NUL]) @ [] @ takeWhile (\<lambda>c. c \<noteq> NL) m @ NUL # x)
                  (filename_len hdr) = Inr funcname"
        using Cons.prems(4) True by simp
      show "\<forall>x. cstring_at ((pre @ seg @ [NUL]) @ [] @ takeWhile (\<lambda>c. c \<noteq> NL) m @ NUL # x)
                  (filename_len hdr + funcname_len hdr) = Inr loggername"
        using Cons.prems(5) True by simp
    qed
    show ?thesis
      using x True call ih by (simp split: sum.splits)
  next
    case False
    have ih: "cut_lines_loop E G hdr c (pre @ (seg @ [x])) (length pre) (len + 1)
                (m @ NUL # r) io
              = log_lines E G hdr filename funcname loggername
                  (cut_segments m (seg @ [x]) (len + 1)) io"
    proof (rule Cons.IH[OF m])
      show "NUL \<notin> set (seg @ [x])" using Cons.prems(2) x by simp
      show "\<forall>y. cstring_at (pre @ (seg @ [x]) @ takeWhile (\<lambda>c. c \<noteq> NL) m @ NUL # y) c
                  = Inr filename"
        using Cons.prems(3) False by simp
      show "\<forall>y. cstring_at (pre @ (seg @ [x]) @ takeWhile (\<lambda>c. c \<noteq> NL) m @ NUL # y)
                  (filename_len hdr) = Inr funcname"
        using Cons.prems(4) False by simp
      show "\<forall>y. cstring_at (pre @ (seg @ [x]) @ takeWhile (\<lambda>c. c \<noteq> NL) m @ NUL # y)
                  (filename_len hdr + funcname_len hdr) = Inr loggername"
        using Cons.prems(5) False by simp
    qed
    show ?thesis using x False ih by simp
  qed
qed

lemma first_cut_split:
  "NUL \<notin> set m \<Longrightarrow> \<exists>y. first_cut (m @ NUL # r) = takeWhile (\<lambda>c. c \<noteq> NL) m @ NUL # y"
  by (induction m) auto

lemma basename_loop_bound:
  "basename_loop path n = Inr c \<Longrightarrow> c = 0 \<or> (0 < c \<and> c \<le> Suc n \<and> path ! (c - 1) = CHR ''/'')"
  by (induction n) (auto split: if_splits)

lemma log_single_line_writes:
  assumes "localtime_r E (tv_sec (detail_time hdr)) = Some now" and "PROGNAME G = Some prog"
    and "pfx = log_prefix (LOG_LEVEL_STR ! level_num (level_hdr hdr)) now
                 (tv_nsec (detail_time hdr)) (PID G) (tid hdr) (thread_rank hdr) prog
                 filename (line_nb hdr) funcname loggername"
    and "length pfx < FIXED_LOG_SIZE + PROGNAME_LEN G + variable_len hdr"
    and "length line \<le> line_len"
    and "\<forall>k b. write_sink E k b = int (length b)"
  shows "log_single_line E G hdr filename funcname loggername line line_len io
           = Inr (io\<lparr>sink_writes := sink_writes io
                        @ [(pfx @ line @ [NL], int (length (pfx @ line @ [NL])))]\<rparr>)"
proof -
  let ?n = "FIXED_LOG_SIZE + PROGNAME_LEN G + variable_len hdr + line_len + 1"
  let ?full = "pfx @ line @ [NL]"
  have len: "length ?full \<le> ?n - 1" using assms(4,5) by simp
  have mk: "mkmsg E G ?n (LOG_LEVEL_STR ! level_num (level_hdr hdr)) (detail_time hdr) (tid hdr)
             (thread_rank hdr) filename (line_nb hdr) funcname loggername line
           = Inr (snprintf_buf ?n ?full, length ?full)"
    using assms(1,2,3) len by (simp add: mkmsg_def Let_def)
  have tk: "take (length ?full) (snprintf_buf ?n ?full) = ?full"
    using len by (intro take_snprintf_buf) simp_all
  show ?thesis
    unfolding log_single_line_def mk prod.case sum.case tk
    using assms(6) by (simp add: Let_def)
qed

lemma log_lines_writes:
  assumes "localtime_r E (tv_sec (detail_time hdr)) = Some now" and "PROGNAME G = Some prog"
    and "pfx = log_prefix (LOG_LEVEL_STR ! level_num (level_hdr hdr)) now
                 (tv_nsec (detail_time hdr)) (PID G) (tid hdr) (thread_rank hdr) prog
                 filename (line_nb hdr) funcname loggername"
    and "length pfx < FIXED_LOG_SIZE + PROGNAME_LEN G + variable_len hdr"
    and "\<forall>k b. write_sink E k b = int (length b)"
    and "list_all (\<lambda>(l, n). length l \<le> n) ls"
  shows "log_lines E G hdr filename funcname loggername ls io
           = Inr (io\<lparr>sink_writes := sink_writes io
                        @ map (\<lambda>seg. (pfx @ seg @ [NL], int (length (pfx @ seg @ [NL]))))
                            (map fst ls)\<rparr>)"
  using assms(6)
proof (induction ls arbitrary: io)
  case Nil
  then show ?case by simp
next
  case (Cons a ls)
  obtain line len where a: "a = (line, len)" by (cases a)
  with Cons.prems have l: "length line \<le> len" and rest: "list_all (\<lambda>(l, n). length l \<le> n) ls"
    by simp_all
  show ?case
    unfolding a log_lines.simps log_single_line_writes[OF assms(1,2,3,4) l assms(5)] sum.case
      Cons.IH[OF rest]
    by simp
qed

text \<open>
  Where the claim holds. For a frame whose message is \<open>logmsg\<close> and whose rendered
  header is shorter than \<open>FIXED_LOG_SIZE + PROGNAME_LEN + variable_len\<close>, on a sink
  that takes every \<open>write\<close> whole, \<open>_process_data\<close> writes one line per segment
  of the message between newlines, in order: \<open>count_list logmsg NL + 1\<close> lines, each the
  same rendered header followed by its segment and a newline. (No \<open>write\<close> on standard
  error is to fail: the handler asserts it when the message cannot be closed.)
\<close>

lemma process_data_one_line_per_segment:
  assumes "cstring_at (tail fr) (message_offset (header fr)) = Inr logmsg"
    and "frame_prefix E G fr = Some pfx"
    and "length pfx < FIXED_LOG_SIZE + PROGNAME_LEN G + variable_len (header fr)"
    and "\<forall>k b. write_sink E k b = int (length b)"
    and "\<forall>k b. 0 \<le> write_stderr E k b"
  shows "\<exists>io'. process_data E G (Received fr) io = Inr (BXIERR_OK, io')
           \<and> sink_writes io'
               = sink_writes io
                 @ map (\<lambda>seg. (pfx @ seg @ [NL], int (length (pfx @ seg @ [NL]))))
                     (spec_split_lines logmsg)
           \<and> length (spec_split_lines logmsg) = count_list logmsg NL + 1
           \<and> join_lines (spec_split_lines logmsg) = logmsg
           \<and> list_all (\<lambda>seg. NL \<notin> set seg) (spec_split_lines logmsg)"
proof -
  let ?hdr = "header fr" and ?buf = "tail fr"
  let ?off = "message_offset ?hdr"
  let ?tw = "takeWhile (\<lambda>c. c \<noteq> NL) logmsg"
  let ?a = "take ?off ?buf @ ?tw"
  from cstring_at_split[OF assms(1)] obtain rest where
    d: "drop ?off ?buf = logmsg @ NUL # rest" and nn: "NUL \<notin> set logmsg"
    by blast
  from d have off: "?off < length ?buf" by (cases "?off < length ?buf") simp_all
  then have la: "length ?a = ?off + length ?tw" by simp
  from first_cut_split[OF nn, of rest] obtain y where
    fc: "first_cut (logmsg @ NUL # rest) = ?tw @ NUL # y" by blast
  from assms(2) obtain c filename funcname loggername now prog where
    b: "basename ?buf (filename_len ?hdr) = Inr c"
    and s1: "cstring_at (?a @ NUL # y) c = Inr filename"
    and s2: "cstring_at (?a @ NUL # y) (filename_len ?hdr) = Inr funcname"
    and s3: "cstring_at (?a @ NUL # y) (filename_len ?hdr + funcname_len ?hdr) = Inr loggername"
    and lt: "localtime_r E (tv_sec (detail_time ?hdr)) = Some now"
    and pg: "PROGNAME G = Some prog"
    and pfx: "pfx = log_prefix (LOG_LEVEL_STR ! level_num (level_hdr ?hdr)) now
                 (tv_nsec (detail_time ?hdr)) (PID G) (tid ?hdr) (thread_rank ?hdr) prog
                 filename (line_nb ?hdr) funcname loggername"
    by (auto simp: frame_prefix_def Let_def d fc split: sum.splits option.splits)
  have b2: "filename_len ?hdr \<le> length ?a" and b3: "filename_len ?hdr + funcname_len ?hdr \<le> length ?a"
    unfolding la by (simp_all add: message_offset_def)
  have b1: "c \<le> length ?a"
  proof (cases "c \<le> ?off")
    case True
    then show ?thesis unfolding la by simp
  next
    case False
    from b have "basename_loop ?buf (filename_len ?hdr) = Inr c"
      by (simp add: basename_def split: if_splits)
    from basename_loop_bound[OF this] False
    have c: "c \<le> Suc (filename_len ?hdr)" and sl: "?buf ! (c - 1) = CHR ''/''" by auto
    from c False have ceq: "c = Suc ?off" by (simp add: message_offset_def)
    from off d have "?buf ! ?off = hd (logmsg @ NUL # rest)"
      by (simp add: hd_drop_conv_nth[symmetric])
    with sl ceq have h: "hd (logmsg @ NUL # rest) = CHR ''/''" by simp
    then obtain z zs where z: "logmsg = z # zs" "z = CHR ''/''"
      by (cases logmsg) (auto simp: NUL_def)
    then have "Suc 0 \<le> length ?tw" by (simp add: NL_def)
    with ceq show ?thesis unfolding la by linarith
  qed
  have n1: "\<forall>x. cstring_at (take ?off ?buf @ [] @ ?tw @ NUL # x) c = Inr filename"
    using cstring_at_append_NUL[OF b1] s1 by simp
  have n2: "\<forall>x. cstring_at (take ?off ?buf @ [] @ ?tw @ NUL # x) (filename_len ?hdr) = Inr funcname"
    using cstring_at_append_NUL[OF b2] s2 by simp
  have n3: "\<forall>x. cstring_at (take ?off ?buf @ [] @ ?tw @ NUL # x)
                   (filename_len ?hdr + funcname_len ?hdr) = Inr loggername"
    using cstring_at_append_NUL[OF b3] s3 by simp
  have segs: "map fst (cut_segments logmsg [] 0) = spec_split_lines logmsg"
    using cut_segments_lines[of logmsg "[]" 0] spec_split_lines_nonempty[of logmsg]
    by simp
  have lens: "list_all (\<lambda>(l, n). length l \<le> n) (cut_segments logmsg [] 0)"
    by (rule cut_segments_lens) simp
  have "cut_lines_loop E G ?hdr c (take ?off ?buf @ []) (length (take ?off ?buf)) 0
          (logmsg @ NUL # rest) io
        = log_lines E G ?hdr filename funcname loggername (cut_segments logmsg [] 0) io"
    by (rule cut_lines_loop_segments[OF nn _ n1 n2 n3]) simp
  then have cut: "cut_lines_loop E G ?hdr c (take ?off ?buf) ?off 0 (drop ?off ?buf) io
        = Inr (io\<lparr>sink_writes := sink_writes io
                     @ map (\<lambda>seg. (pfx @ seg @ [NL], int (length (pfx @ seg @ [NL]))))
                         (spec_split_lines logmsg)\<rparr>)"
    using off unfolding d log_lines_writes[OF lt pg pfx assms(3,4) lens] segs by simp
  have "\<exists>io'. process_data E G (Received fr) io = Inr (BXIERR_OK, io')
              \<and> sink_writes io'
                  = sink_writes io
                    @ map (\<lambda>seg. (pfx @ seg @ [NL], int (length (pfx @ seg @ [NL]))))
                        (spec_split_lines logmsg)"
    using assms(5) cut by (simp add: process_data_def Let_def b message_offset_def)
  then show ?thesis
    using spec_split_lines_count[of logmsg] spec_split_lines_join[of logmsg]
      spec_split_lines_no_NL[of logmsg]
    by (auto simp: list_all_iff)
qed


lemma basename_loop_numeral:
  "basename_loop path (numeral k) =
     (if numeral k \<ge> length path then Inl OutOfBounds
      else if path ! numeral k = CHR ''/'' then Inr (Suc (numeral k))
      else basename_loop path (pred_numeral k))"
  by (simp add: numeral_eq_Suc)

lemma basename_loop_1:
  "basename_loop path 1 =
     (if 1 \<ge> length path then Inl OutOfBounds
      else if path ! 1 = CHR ''/'' then Inr 2
      else Inr 0)"
  using basename_loop.simps(2)[of path 0] by simp

lemma demo_log_prefix:
  "log_prefix (CHR ''I'')
     \<lparr>tm_year = 114, tm_mon = 8, tm_mday = 18, tm_hour = 9, tm_min = 7, tm_sec = 52\<rparr>
     472145261 11297 11302 1792 ''prog'' fname 10 ''fn'' ''L''
   = ''I|20140918T090752.472145261|11297.11302=01792:prog|'' @ fname @ '':10@fn|L|''"
  by (simp add: log_prefix_def fmt_0d_def fmt_0u_def dec.simps digit_char_def
        YEAR_SIZE_def MONTH_SIZE_def DAY_SIZE_def HOUR_SIZE_def MINUTE_SIZE_def
        SECOND_SIZE_def SUBSECOND_SIZE_def PID_SIZE_def TID_SIZE_def THREAD_RANK_SIZE_def)

lemma demo_log_prefix_1000:
  "log_prefix (CHR ''I'')
     \<lparr>tm_year = 114, tm_mon = 8, tm_mday = 18, tm_hour = 9, tm_min = 7, tm_sec = 52\<rparr>
     472145261 11297 11302 1792 ''prog'' fname 1000 ''fn'' ''L''
   = ''I|20140918T090752.472145261|11297.11302=01792:prog|'' @ fname @ '':1000@fn|L|''"
  by (simp add: log_prefix_def fmt_0d_def fmt_0u_def dec.simps digit_char_def
        YEAR_SIZE_def MONTH_SIZE_def DAY_SIZE_def HOUR_SIZE_def MINUTE_SIZE_def
        SECOND_SIZE_def SUBSECOND_SIZE_def PID_SIZE_def TID_SIZE_def THREAD_RANK_SIZE_def)

lemma demo_log_prefix_12345:
  "log_prefix (CHR ''I'')
     \<lparr>tm_year = 114, tm_mon = 8, tm_mday = 18, tm_hour = 9, tm_min = 7, tm_sec = 52\<rparr>
     472145261 11297 11302 1792 ''prog'' fname 12345 ''fn'' ''L''
   = ''I|20140918T090752.472145261|11297.11302=01792:prog|'' @ fname @ '':12345@fn|L|''"
  by (simp add: log_prefix_def fmt_0d_def fmt_0u_def dec.simps digit_char_def
        YEAR_SIZE_def MONTH_SIZE_def DAY_SIZE_def HOUR_SIZE_def MINUTE_SIZE_def
        SECOND_SIZE_def SUBSECOND_SIZE_def PID_SIZE_def TID_SIZE_def THREAD_RANK_SIZE_def)

lemma demo_level_char: "LOG_LEVEL_STR ! 7 = CHR ''I''"
  by (simp add: LOG_LEVEL_STR_def)

lemma demo_frame_prefix:
  "frame_prefix ok_platform demo_initialized demo_frame
     = Some ''I|20140918T090752.472145261|11297.11302=01792:prog|f.c:10@fn|L|''"
  by (simp add: frame_prefix_def demo_frame_def demo_header_def basename_def message_offset_def
        basename_loop_numeral basename_loop_1 cstring_at_def NUL_def NL_def ok_platform_def
        demo_initialized_def demo_level_char demo_log_prefix Let_def)

lemma demo_frame_message:
  "cstring_at (tail demo_frame) (message_offset (header demo_frame))
     = Inr (''a'' @ [NL] @ ''b'' @ [NL] @ ''c'')"
  by (simp add: demo_frame_def demo_header_def message_offset_def cstring_at_def NUL_def NL_def)

lemma demo_globals:
  "PROGNAME_LEN demo_initialized = 5 \<and> FILENAME demo_initialized = Some ''-''
   \<and> PROGNAME demo_initialized = Some ''prog'' \<and> PID demo_initialized = 11297"
  by (simp add: demo_initialized_def)

text \<open>The frame of the spec's example, sent from line 10 of \<open>f.c\<close>: three lines.\<close>

lemma process_data_three_lines:
  "cstring_at (tail demo_frame) (message_offset (header demo_frame))
     = Inr (''a'' @ [NL] @ ''b'' @ [NL] @ ''c'')
   \<and> count_list (''a'' @ [NL] @ ''b'' @ [NL] @ ''c'') NL = 2
   \<and> (\<exists>io'. process_data ok_platform demo_initialized (Received demo_frame) empty_io
               = Inr (BXIERR_OK, io')
           \<and> sink_writes io'
               = [(''I|20140918T090752.472145261|11297.11302=01792:prog|f.c:10@fn|L|a'' @ [NL], 65),
                  (''I|20140918T090752.472145261|11297.11302=01792:prog|f.c:10@fn|L|b'' @ [NL], 65),
                  (''I|20140918T090752.472145261|11297.11302=01792:prog|f.c:10@fn|L|c'' @ [NL], 65)])"
proof -
  have fit: "length ''I|20140918T090752.472145261|11297.11302=01792:prog|f.c:10@fn|L|''
               < FIXED_LOG_SIZE + PROGNAME_LEN demo_initialized + variable_len (header demo_frame)"
    by (simp add: FIXED_LOG_SIZE_def YEAR_SIZE_def MONTH_SIZE_def DAY_SIZE_def HOUR_SIZE_def
          MINUTE_SIZE_def SECOND_SIZE_def SUBSECOND_SIZE_def PID_SIZE_def TID_SIZE_def
          THREAD_RANK_SIZE_def demo_initialized_def demo_frame_def demo_header_def)
  have ws: "\<forall>k b. write_sink ok_platform k b = int (length b)" by (simp add: ok_platform_def)
  have wr: "\<forall>k b. 0 \<le> write_stderr ok_platform k b" by (simp add: ok_platform_def)
  have sp: "spec_split_lines (''a'' @ [NL] @ ''b'' @ [NL] @ ''c'') = [''a'', ''b'', ''c'']"
    by (simp add: NL_def)
  have cnt: "count_list (''a'' @ [NL] @ ''b'' @ [NL] @ ''c'') NL = 2"
    by (simp add: NL_def)
  from process_data_one_line_per_segment[OF demo_frame_message demo_frame_prefix fit ws wr,
      of empty_io]
  obtain io' where
    all: "process_data ok_platform demo_initialized (Received demo_frame) empty_io
            = Inr (BXIERR_OK, io')
          \<and> sink_writes io'
              = sink_writes empty_io
                @ map (\<lambda>seg. (''I|20140918T090752.472145261|11297.11302=01792:prog|f.c:10@fn|L|''
                               @ seg @ [NL],
                             int (length
                               (''I|20140918T090752.472145261|11297.11302=01792:prog|f.c:10@fn|L|''
                                @ seg @ [NL]))))
                    (spec_split_lines (''a'' @ [NL] @ ''b'' @ [NL] @ ''c''))
          \<and> length (spec_split_lines (''a'' @ [NL] @ ''b'' @ [NL] @ ''c''))
              = count_list (''a'' @ [NL] @ ''b'' @ [NL] @ ''c'') NL + 1
          \<and> join_lines (spec_split_lines (''a'' @ [NL] @ ''b'' @ [NL] @ ''c''))
              = ''a'' @ [NL] @ ''b'' @ [NL] @ ''c''
          \<and> list_all (\<lambda>seg. NL \<notin> set seg)
               (spec_split_lines (''a'' @ [NL] @ ''b'' @ [NL] @ ''c''))" ..
  note r = all[THEN conjunct1] and w = all[THEN conjunct2, THEN conjunct1]
  have lines: "sink_writes io'
          = [(''I|20140918T090752.472145261|11297.11302=01792:prog|f.c:10@fn|L|a'' @ [NL], 65),
             (''I|20140918T090752.472145261|11297.11302=01792:prog|f.c:10@fn|L|b'' @ [NL], 65),
             (''I|20140918T090752.472145261|11297.11302=01792:prog|f.c:10@fn|L|c'' @ [NL], 65)]"
    unfolding w sp by (simp add: empty_io_def)
  show ?thesis
  proof (intro conjI exI[of _ io'])
    show "cstring_at (tail demo_frame) (message_offset (header demo_frame))
            = Inr (''a'' @ [NL] @ ''b'' @ [NL] @ ''c'')"
      by (rule demo_frame_message)
    show "count_list (''a'' @ [NL] @ ''b'' @ [NL] @ ''c'') NL = 2" by (rule cnt)
    show "process_data ok_platform demo_initialized (Received demo_frame) empty_io
            = Inr (BXIERR_OK, io')"
      by (rule r)
    show "sink_writes io'
          = [(''I|20140918T090752.472145261|11297.11302=01792:prog|f.c:10@fn|L|a'' @ [NL], 65),
             (''I|20140918T090752.472145261|11297.11302=01792:prog|f.c:10@fn|L|b'' @ [NL], 65),
             (''I|20140918T090752.472145261|11297.11302=01792:prog|f.c:10@fn|L|c'' @ [NL], 65)]"
      by (rule lines)
  qed
qed

text \<open>
  The same log call made from line 12345 of \<open>f.c\<close> succeeds and sends the frame
  \<open>line_12345_frame\<close>.
\<close>

lemma log_call_at_line_12345:
  "map_sum id (\<lambda>r. (fst r, data_channel (snd r)))
     (bxilog_vlog_nolevelcheck ok_platform demo_logger BXILOG_INFO ''f.c'' 4 ''fn'' 3 12345
        (Some (''a'' @ [NL] @ ''b'' @ [NL] @ ''c'')) demo_initialized)
   = Inr (BXIERR_OK, [line_12345_frame])"
  by (simp add: demo_initialized_def get_tsd_def ok_platform_def bxierr_isko_def
        BXIERR_OK_def Let_def bxilog_vlog_nolevelcheck_def memcpy_str_def demo_logger_def
        DEFAULT_LOG_BUF_SIZE_def line_12345_frame_def demo_frame_def demo_header_def)

text \<open>
  Claim C4. Every frame is to give one output line per segment of its message. The buffer
  \<open>_log_single_line\<close> sizes has no room for the digits of the line number: it holds
  \<open>FIXED_LOG_SIZE + PROGNAME_LEN + variable_len + line_len + 1\<close> bytes, and the only
  room for them is the four \<open>NUL\<close> bytes counted in \<open>PROGNAME_LEN\<close> and
  \<open>variable_len\<close> and the directories \<open>_basename\<close> cuts off. For the message "a", a newline,
  "b", a newline, "c" logged from line 12345 of \<open>f.c\<close> the buffer of the first line
  has 67 bytes, the line 68, and the assertion \<open>written <= n\<close> of \<open>_mkmsg\<close> fails:
  the handler aborts and writes no line.
\<close>

theorem handler_aborts_on_five_digit_line:
  "map_sum id (\<lambda>r. (fst r, data_channel (snd r)))
     (bxilog_vlog_nolevelcheck ok_platform demo_logger BXILOG_INFO ''f.c'' 4 ''fn'' 3 12345
        (Some (''a'' @ [NL] @ ''b'' @ [NL] @ ''c'')) demo_initialized)
     = Inr (BXIERR_OK, [line_12345_frame])
   \<and> FIXED_LOG_SIZE + PROGNAME_LEN demo_initialized + variable_len (header line_12345_frame)
       + 1 + 1 = 67
   \<and> length (''I|20140918T090752.472145261|11297.11302=01792:prog|f.c:12345@fn|L|a'' @ [NL]) = 68
   \<and> process_data ok_platform demo_initialized (Received line_12345_frame) empty_io
       = Inl AssertFailed"
proof (intro conjI)
  show "map_sum id (\<lambda>r. (fst r, data_channel (snd r)))
     (bxilog_vlog_nolevelcheck ok_platform demo_logger BXILOG_INFO ''f.c'' 4 ''fn'' 3 12345
        (Some (''a'' @ [NL] @ ''b'' @ [NL] @ ''c'')) demo_initialized)
     = Inr (BXIERR_OK, [line_12345_frame])"
    by (rule log_call_at_line_12345)
  show "FIXED_LOG_SIZE + PROGNAME_LEN demo_initialized + variable_len (header line_12345_frame)
       + 1 + 1 = 67"
    by (simp add: line_12345_frame_def demo_frame_def demo_header_def demo_initialized_def
        FIXED_LOG_SIZE_def YEAR_SIZE_def MONTH_SIZE_def DAY_SIZE_def HOUR_SIZE_def
        MINUTE_SIZE_def SECOND_SIZE_def SUBSECOND_SIZE_def PID_SIZE_def TID_SIZE_def
        THREAD_RANK_SIZE_def)
  show "length (''I|20140918T090752.472145261|11297.11302=01792:prog|f.c:12345@fn|L|a'' @ [NL])
          = 68"
    by simp
  show "process_data ok_platform demo_initialized (Received line_12345_frame) empty_io
       = Inl AssertFailed"
    by (simp add: process_data_def line_12345_frame_def demo_frame_def demo_header_def
        basename_def basename_loop_numeral basename_loop_1 log_single_line_at_def
        cstring_at_def NUL_def NL_def log_single_line_def mkmsg_def ok_platform_def
        demo_initialized_def demo_level_char demo_log_prefix_12345 Let_def
        FIXED_LOG_SIZE_def YEAR_SIZE_def MONTH_SIZE_def DAY_SIZE_def HOUR_SIZE_def
        MINUTE_SIZE_def SECOND_SIZE_def SUBSECOND_SIZE_def PID_SIZE_def TID_SIZE_def
        THREAD_RANK_SIZE_def)
qed

text \<open>
  From line 1000 of \<open>f.c\<close> the first line is as long as its buffer: the assertion
  holds, \<open>snprintf\<close> has cut the newline off, and the \<open>write\<close> ends with the
  \<open>NUL\<close> in its place. The second and third lines are counted one byte longer
  (\<open>len\<close> starts again from 1) and keep their newline.
\<close>

lemma line_1000_first_line_unterminated:
  "map_sum id (\<lambda>r. (fst r, sink_writes (snd r)))
     (process_data ok_platform demo_initialized (Received line_1000_frame) empty_io)
   = Inr (BXIERR_OK,
       [(''I|20140918T090752.472145261|11297.11302=01792:prog|f.c:1000@fn|L|a'' @ [NUL], 67),
        (''I|20140918T090752.472145261|11297.11302=01792:prog|f.c:1000@fn|L|b'' @ [NL], 67),
        (''I|20140918T090752.472145261|11297.11302=01792:prog|f.c:1000@fn|L|c'' @ [NL], 67)])"
  by (simp add: process_data_def line_1000_frame_def demo_frame_def demo_header_def
        basename_def basename_loop_numeral basename_loop_1 log_single_line_at_def
        cstring_at_def NUL_def NL_def log_single_line_def mkmsg_def ok_platform_def
        demo_initialized_def demo_level_char demo_log_prefix_1000 Let_def snprintf_buf_def
        FIXED_LOG_SIZE_def YEAR_SIZE_def MONTH_SIZE_def DAY_SIZE_def HOUR_SIZE_def
        MINUTE_SIZE_def SECOND_SIZE_def SUBSECOND_SIZE_def PID_SIZE_def TID_SIZE_def
        THREAD_RANK_SIZE_def empty_io_def bxierr_isko_def BXIERR_OK_def)

lemma log_single_line_effect:
  assumes "mkmsg E G (FIXED_LOG_SIZE + PROGNAME_LEN G + variable_len hdr + line_len + 1)
             (LOG_LEVEL_STR ! level_num (level_hdr hdr)) (detail_time hdr) (tid hdr)
             (thread_rank hdr) filename (line_nb hdr) funcname loggername line = Inr (msg, n)"
    and "w = write_sink E (length (sink_writes io)) (take n msg)"
  shows "0 < w \<Longrightarrow>
           \<exists>io'. log_single_line E G hdr filename funcname loggername line line_len io = Inr io'
              \<and> stderr_writes io' = stderr_writes io
              \<and> sink_writes io' = sink_writes io @ [(take n msg, w)]"
    and "w \<le> 0 \<Longrightarrow> FILENAME G = Some fname \<Longrightarrow> \<forall>k b. 0 \<le> write_stderr E k b \<Longrightarrow>
           \<exists>io'. log_single_line E G hdr filename funcname loggername line line_len io = Inr io'
              \<and> map fst (stderr_writes io')
                   = map fst (stderr_writes io) @ [cant_write_note fname @ [NUL], take n msg]
              \<and> sink_writes io' = sink_writes io @ [(take n msg, w)]"
  using assms by (simp_all add: log_single_line_def Let_def)

text \<open>
  Claim C6, as amended. For a line that \<open>_mkmsg\<close> rendered, of \<open>n\<close> bytes: when the
  \<open>write\<close> on the sink returns a positive count, \<open>n\<close> or less, nothing is written to
  standard error; when it returns zero or less, the handler writes the explanatory line
  to standard error, then the line itself (given that the file name is set and that those
  two writes do not fail).
\<close>

theorem log_single_line_stderr_on_failed_write:
  assumes "mkmsg E G (FIXED_LOG_SIZE + PROGNAME_LEN G + variable_len hdr + line_len + 1)
             (LOG_LEVEL_STR ! level_num (level_hdr hdr)) (detail_time hdr) (tid hdr)
             (thread_rank hdr) filename (line_nb hdr) funcname loggername line = Inr (msg, n)"
  shows "(0 < write_sink E (length (sink_writes io)) (take n msg)
            \<longrightarrow> (\<exists>io'. log_single_line E G hdr filename funcname loggername line line_len io
                          = Inr io'
                       \<and> stderr_writes io' = stderr_writes io))
       \<and> (write_sink E (length (sink_writes io)) (take n msg) \<le> 0
            \<and> FILENAME G = Some fname \<and> (\<forall>k b. 0 \<le> write_stderr E k b)
            \<longrightarrow> (\<exists>io'. log_single_line E G hdr filename funcname loggername line line_len io
                          = Inr io'
                       \<and> map fst (stderr_writes io')
                           = map fst (stderr_writes io)
                             @ [cant_write_note fname @ [NUL], take n msg]))"
  using log_single_line_effect[OF assms refl, of io] by blast

lemma demo_mkmsg_ok:
  "mkmsg ok_platform demo_initialized
     (FIXED_LOG_SIZE + PROGNAME_LEN demo_initialized + variable_len demo_header + 5 + 1)
     (LOG_LEVEL_STR ! level_num (level_hdr demo_header)) (detail_time demo_header)
     (tid demo_header) (thread_rank demo_header) ''f.c'' (line_nb demo_header) ''fn'' ''L''
     ''hello'' = Inr (demo_line @ [NUL], 69)"
  by (simp add: mkmsg_def demo_header_def ok_platform_def demo_initialized_def
        demo_level_char demo_log_prefix Let_def snprintf_buf_def demo_line_def
        FIXED_LOG_SIZE_def YEAR_SIZE_def MONTH_SIZE_def DAY_SIZE_def HOUR_SIZE_def
        MINUTE_SIZE_def SECOND_SIZE_def SUBSECOND_SIZE_def PID_SIZE_def TID_SIZE_def
        THREAD_RANK_SIZE_def)

lemma demo_mkmsg_failed_write:
  "mkmsg failed_write_platform demo_initialized
     (FIXED_LOG_SIZE + PROGNAME_LEN demo_initialized + variable_len demo_header + 5 + 1)
     (LOG_LEVEL_STR ! level_num (level_hdr demo_header)) (detail_time demo_header)
     (tid demo_header) (thread_rank demo_header) ''f.c'' (line_nb demo_header) ''fn'' ''L''
     ''hello'' = Inr (demo_line @ [NUL], 69)"
  using demo_mkmsg_ok by (simp add: mkmsg_def failed_write_platform_def)

lemma demo_mkmsg_short_write:
  "mkmsg short_write_platform demo_initialized
     (FIXED_LOG_SIZE + PROGNAME_LEN demo_initialized + variable_len demo_header + 5 + 1)
     (LOG_LEVEL_STR ! level_num (level_hdr demo_header)) (detail_time demo_header)
     (tid demo_header) (thread_rank demo_header) ''f.c'' (line_nb demo_header) ''fn'' ''L''
     ''hello'' = Inr (demo_line @ [NUL], 69)"
  using demo_mkmsg_ok by (simp add: mkmsg_def short_write_platform_def)

lemma demo_line_length: "length demo_line = 69 \<and> take 69 (demo_line @ [NUL]) = demo_line"
  by (simp add: demo_line_def)

text \<open>A write that succeeds and a write that fails, for the line of the message "hello".\<close>

theorem log_single_line_witness:
  "0 < write_sink ok_platform 0 demo_line
   \<and> (\<exists>io'. log_single_line ok_platform demo_initialized demo_header ''f.c'' ''fn'' ''L''
               ''hello'' 5 empty_io = Inr io'
           \<and> stderr_writes io' = [])
   \<and> write_sink failed_write_platform 0 demo_line \<le> 0
   \<and> FILENAME demo_initialized = Some ''-''
   \<and> (\<exists>io'. log_single_line failed_write_platform demo_initialized demo_header ''f.c'' ''fn''
               ''L'' ''hello'' 5 empty_io = Inr io'
           \<and> map fst (stderr_writes io') = [cant_write_note ''-'' @ [NUL], demo_line])"
proof -
  have tk: "take 69 (demo_line @ [NUL]) = demo_line" using demo_line_length by simp
  have w1: "0 < write_sink ok_platform 0 demo_line"
    using demo_line_length by (simp add: ok_platform_def)
  have w2: "write_sink failed_write_platform 0 demo_line \<le> 0"
    by (simp add: failed_write_platform_def)
  have se: "\<forall>k b. 0 \<le> write_stderr failed_write_platform k b"
    by (simp add: failed_write_platform_def ok_platform_def)
  have fn: "FILENAME demo_initialized = Some ''-''" using demo_globals by simp
  have e: "length (sink_writes empty_io) = 0" "stderr_writes empty_io = []"
    by (simp_all add: empty_io_def)
  note a = log_single_line_stderr_on_failed_write[OF demo_mkmsg_ok, of empty_io "''-''",
      unfolded tk e]
  note b = log_single_line_stderr_on_failed_write[OF demo_mkmsg_failed_write, of empty_io "''-''",
      unfolded tk e]
  from a[THEN conjunct1, THEN mp, OF w1]
  have p1: "\<exists>io'. log_single_line ok_platform demo_initialized demo_header ''f.c''
                           ''fn'' ''L'' ''hello'' 5 empty_io = Inr io'
                         \<and> stderr_writes io' = []" .
  from b[THEN conjunct2, THEN mp, OF conjI[OF w2 conjI[OF fn se]]]
  have p2: "\<exists>io'. log_single_line failed_write_platform demo_initialized
                           demo_header ''f.c'' ''fn'' ''L'' ''hello'' 5 empty_io = Inr io'
                         \<and> map fst (stderr_writes io') = [cant_write_note ''-'' @ [NUL], demo_line]"
    by simp
  show ?thesis
    by (intro conjI) (rule w1 p1 w2 fn p2)+
qed

text \<open>
  The claim as it stands fails: the line has 69 bytes, the \<open>write\<close> on the sink returns 5,
  and nothing is written to standard error.
\<close>

theorem short_write_counterexample:
  "map_sum id (\<lambda>io. (map (\<lambda>bw. (length (fst bw), snd bw)) (sink_writes io), stderr_writes io))
     (log_single_line short_write_platform demo_initialized demo_header ''f.c'' ''fn'' ''L''
        ''hello'' 5 empty_io)
   = Inr ([(69, 5)], [])"
  unfolding log_single_line_def demo_mkmsg_short_write
  by (simp add: Let_def demo_line_length short_write_platform_def empty_io_def)

text \<open>
  Claim C8. The file printed in an output line is to be what follows the last \<open>/\<close> of
  the path. For the path "/a.c" (with the length 5 that counts its \<open>NUL\<close>, or 4)
  \<open>_basename\<close> returns the offset 0: its loop never looks at the first character, and
  the line shows "/a.c" where the basename is "a.c".
\<close>

theorem basename_keeps_leading_slash:
  "basename (tail slash_frame) 5 = Inr 0
   \<and> basename (tail slash_frame) 4 = Inr 0
   \<and> cstring_at (tail slash_frame) 0 = Inr ''/a.c''
   \<and> spec_basename ''/a.c'' = ''a.c''
   \<and> frame_prefix ok_platform demo_initialized slash_frame
       = Some ''I|20140918T090752.472145261|11297.11302=01792:prog|/a.c:10@fn|L|''"
  by (simp add: frame_prefix_def slash_frame_def demo_header_def basename_def message_offset_def
        basename_loop_numeral basename_loop_1 cstring_at_def NUL_def NL_def ok_platform_def
        demo_initialized_def demo_level_char demo_log_prefix spec_basename_def Let_def)

text \<open>For a path whose last \<open>/\<close> is not its first character the two agree.\<close>

lemma basename_of_nested_path:
  "basename (''src/log/a.c'' @ [NUL] @ ''fn'' @ [NUL]) 12 = Inr 8
   \<and> cstring_at (''src/log/a.c'' @ [NUL] @ ''fn'' @ [NUL]) 8 = Inr ''a.c''
   \<and> spec_basename ''src/log/a.c'' = ''a.c''"
  by (simp add: basename_def basename_loop_numeral basename_loop_1 cstring_at_def NUL_def
        spec_basename_def)

end
